theory Spec2Isabelle
  imports Main "HOL-Library.Word"
begin

section \<open>Values and errors of the embedded JavaScript\<close>

text \<open>
  The repository is a command-line loader for a MongoDB-backed repository of
  molecular-dynamics projects.  Two source units are embedded here: the entry script, whose
  coercers turn a command-line string into a database id or an accession, and the module
  \<^verbatim>\<open>src/commands/delete/index.js\<close>, whose single function deletes a document by id.

  The strings the coercers work on are JavaScript strings: sequences of 16-bit code units.
  \<open>js\<close> gives the code units of a piece of ASCII text.  The text of messages, labels and
  property names, which the program only compares and concatenates, is kept as
  \<^typ>\<open>string\<close>.  Exceptions are values of \<open>jserror\<close>, carried in the left summand of a
  sum type.
\<close>

type_synonym codeUnit = "16 word"

type_synonym jsstring = "codeUnit list"

definition js :: "string \<Rightarrow> jsstring" where
  "js text = map of_char text"

datatype jserror = Error string | ReferenceError string | TypeError string

datatype jsval =
    Undefined
  | Null
  | Str string
  | Num int
  | Obj "(string \<times> jsval) list"

section \<open>The coercers of the entry script\<close>

subsection \<open>\<^verbatim>\<open>String.prototype.trim\<close>\<close>

text \<open>
  \<^verbatim>\<open>trim\<close> removes leading and trailing white space and line terminators: the code
  points U+0009 to U+000D, U+0020, U+00A0, U+1680, U+2000 to U+200A, U+2028, U+2029,
  U+202F, U+205F, U+3000 and U+FEFF, each a single code unit.
\<close>

definition isWhiteSpaceCP :: "nat \<Rightarrow> bool" where
  "isWhiteSpaceCP n =
     ((9 \<le> n \<and> n \<le> 13) \<or> n = 0x20 \<or> n = 0xA0 \<or> n = 0x1680 \<or>
      (0x2000 \<le> n \<and> n \<le> 0x200A) \<or> n = 0x2028 \<or> n = 0x2029 \<or> n = 0x202F \<or>
      n = 0x205F \<or> n = 0x3000 \<or> n = 0xFEFF)"

definition isWhiteSpace :: "codeUnit \<Rightarrow> bool" where
  "isWhiteSpace u = isWhiteSpaceCP (unat u)"

definition trim :: "jsstring \<Rightarrow> jsstring" where
  "trim s = rev (dropWhile isWhiteSpace (rev (dropWhile isWhiteSpace s)))"

subsection \<open>\<^verbatim>\<open>String.prototype.toUpperCase\<close>\<close>

text \<open>
  \<^verbatim>\<open>toUpperCase\<close> reads the string as code points, maps every code point by the
  locale-independent full upper-case mapping of the Unicode character database, and
  encodes the result as UTF-16 again.  The mapping is that of Unicode 14.0: the simple
  upper-case mappings of \<^verbatim>\<open>UnicodeData.txt\<close>, overridden by the unconditional mappings
  of \<^verbatim>\<open>SpecialCasing.txt\<close>; 1525 code points have one.  A rule \<open>Shift lo hi step up\<close>
  maps the code points \<open>lo\<close>, \<open>lo + step\<close>, ... up to \<open>hi\<close> to \<open>up\<close>, \<open>up + step\<close>, ...;
  a rule \<open>Special c v\<close> maps \<open>c\<close> to the sequence \<open>v\<close>.  The rules are kept in blocks in
  code point order, each block with the last code point it covers.
\<close>

datatype caseRule = Shift nat nat nat nat | Special nat "nat list"

fun applies :: "nat \<Rightarrow> caseRule \<Rightarrow> bool" where
  "applies c (Shift lo hi step up) = (lo \<le> c \<and> c \<le> hi \<and> (c - lo) mod step = 0)"
| "applies c (Special k v) = (c = k)"

fun result :: "nat \<Rightarrow> caseRule \<Rightarrow> nat list" where
  "result c (Shift lo hi step up) = [up + (c - lo)]"
| "result c (Special k v) = v"

definition caseRules_0061 :: "caseRule list" where
  "caseRules_0061 =
     [Shift 0x61 0x7A 1 0x41, Shift 0xB5 0xB5 1 0x39C, Special 0xDF [0x53, 0x53],
      Shift 0xE0 0xF6 1 0xC0, Shift 0xF8 0xFE 1 0xD8, Shift 0xFF 0xFF 1 0x178,
      Shift 0x101 0x12F 2 0x100, Shift 0x131 0x131 1 0x49, Shift 0x133 0x137 2 0x132,
      Shift 0x13A 0x148 2 0x139, Special 0x149 [0x2BC, 0x4E], Shift 0x14B 0x177 2 0x14A,
      Shift 0x17A 0x17E 2 0x179, Shift 0x17F 0x17F 1 0x53, Shift 0x180 0x180 1 0x243,
      Shift 0x183 0x185 2 0x182]"

definition caseRules_0188 :: "caseRule list" where
  "caseRules_0188 =
     [Shift 0x188 0x188 1 0x187, Shift 0x18C 0x18C 1 0x18B, Shift 0x192 0x192 1 0x191,
      Shift 0x195 0x195 1 0x1F6, Shift 0x199 0x199 1 0x198, Shift 0x19A 0x19A 1 0x23D,
      Shift 0x19E 0x19E 1 0x220, Shift 0x1A1 0x1A5 2 0x1A0, Shift 0x1A8 0x1A8 1 0x1A7,
      Shift 0x1AD 0x1AD 1 0x1AC, Shift 0x1B0 0x1B0 1 0x1AF, Shift 0x1B4 0x1B6 2 0x1B3,
      Shift 0x1B9 0x1B9 1 0x1B8, Shift 0x1BD 0x1BD 1 0x1BC, Shift 0x1BF 0x1BF 1 0x1F7,
      Shift 0x1C5 0x1C5 1 0x1C4]"

definition caseRules_01C6 :: "caseRule list" where
  "caseRules_01C6 =
     [Shift 0x1C6 0x1C6 1 0x1C4, Shift 0x1C8 0x1C8 1 0x1C7, Shift 0x1C9 0x1C9 1 0x1C7,
      Shift 0x1CB 0x1CB 1 0x1CA, Shift 0x1CC 0x1CC 1 0x1CA, Shift 0x1CE 0x1DC 2 0x1CD,
      Shift 0x1DD 0x1DD 1 0x18E, Shift 0x1DF 0x1EF 2 0x1DE, Special 0x1F0 [0x4A, 0x30C],
      Shift 0x1F2 0x1F2 1 0x1F1, Shift 0x1F3 0x1F3 1 0x1F1, Shift 0x1F5 0x1F5 1 0x1F4,
      Shift 0x1F9 0x21F 2 0x1F8, Shift 0x223 0x233 2 0x222, Shift 0x23C 0x23C 1 0x23B,
      Shift 0x23F 0x240 1 0x2C7E]"

definition caseRules_0242 :: "caseRule list" where
  "caseRules_0242 =
     [Shift 0x242 0x242 1 0x241, Shift 0x247 0x24F 2 0x246, Shift 0x250 0x250 1 0x2C6F,
      Shift 0x251 0x251 1 0x2C6D, Shift 0x252 0x252 1 0x2C70, Shift 0x253 0x253 1 0x181,
      Shift 0x254 0x254 1 0x186, Shift 0x256 0x257 1 0x189, Shift 0x259 0x259 1 0x18F,
      Shift 0x25B 0x25B 1 0x190, Shift 0x25C 0x25C 1 0xA7AB, Shift 0x260 0x260 1 0x193,
      Shift 0x261 0x261 1 0xA7AC, Shift 0x263 0x263 1 0x194, Shift 0x265 0x265 1 0xA78D,
      Shift 0x266 0x266 1 0xA7AA]"

definition caseRules_0268 :: "caseRule list" where
  "caseRules_0268 =
     [Shift 0x268 0x268 1 0x197, Shift 0x269 0x269 1 0x196, Shift 0x26A 0x26A 1 0xA7AE,
      Shift 0x26B 0x26B 1 0x2C62, Shift 0x26C 0x26C 1 0xA7AD, Shift 0x26F 0x26F 1 0x19C,
      Shift 0x271 0x271 1 0x2C6E, Shift 0x272 0x272 1 0x19D, Shift 0x275 0x275 1 0x19F,
      Shift 0x27D 0x27D 1 0x2C64, Shift 0x280 0x280 1 0x1A6, Shift 0x282 0x282 1 0xA7C5,
      Shift 0x283 0x283 1 0x1A9, Shift 0x287 0x287 1 0xA7B1, Shift 0x288 0x288 1 0x1AE,
      Shift 0x289 0x289 1 0x244]"

definition caseRules_028A :: "caseRule list" where
  "caseRules_028A =
     [Shift 0x28A 0x28B 1 0x1B1, Shift 0x28C 0x28C 1 0x245, Shift 0x292 0x292 1 0x1B7,
      Shift 0x29D 0x29D 1 0xA7B2, Shift 0x29E 0x29E 1 0xA7B0, Shift 0x345 0x345 1 0x399,
      Shift 0x371 0x373 2 0x370, Shift 0x377 0x377 1 0x376, Shift 0x37B 0x37D 1 0x3FD,
      Special 0x390 [0x399, 0x308, 0x301], Shift 0x3AC 0x3AC 1 0x386, Shift 0x3AD 0x3AF 1 0x388,
      Special 0x3B0 [0x3A5, 0x308, 0x301], Shift 0x3B1 0x3C1 1 0x391, Shift 0x3C2 0x3C2 1 0x3A3,
      Shift 0x3C3 0x3CB 1 0x3A3]"

definition caseRules_03CC :: "caseRule list" where
  "caseRules_03CC =
     [Shift 0x3CC 0x3CC 1 0x38C, Shift 0x3CD 0x3CE 1 0x38E, Shift 0x3D0 0x3D0 1 0x392,
      Shift 0x3D1 0x3D1 1 0x398, Shift 0x3D5 0x3D5 1 0x3A6, Shift 0x3D6 0x3D6 1 0x3A0,
      Shift 0x3D7 0x3D7 1 0x3CF, Shift 0x3D9 0x3EF 2 0x3D8, Shift 0x3F0 0x3F0 1 0x39A,
      Shift 0x3F1 0x3F1 1 0x3A1, Shift 0x3F2 0x3F2 1 0x3F9, Shift 0x3F3 0x3F3 1 0x37F,
      Shift 0x3F5 0x3F5 1 0x395, Shift 0x3F8 0x3F8 1 0x3F7, Shift 0x3FB 0x3FB 1 0x3FA,
      Shift 0x430 0x44F 1 0x410]"

definition caseRules_0450 :: "caseRule list" where
  "caseRules_0450 =
     [Shift 0x450 0x45F 1 0x400, Shift 0x461 0x481 2 0x460, Shift 0x48B 0x4BF 2 0x48A,
      Shift 0x4C2 0x4CE 2 0x4C1, Shift 0x4CF 0x4CF 1 0x4C0, Shift 0x4D1 0x52F 2 0x4D0,
      Shift 0x561 0x586 1 0x531, Special 0x587 [0x535, 0x552], Shift 0x10D0 0x10FA 1 0x1C90,
      Shift 0x10FD 0x10FF 1 0x1CBD, Shift 0x13F8 0x13FD 1 0x13F0, Shift 0x1C80 0x1C80 1 0x412,
      Shift 0x1C81 0x1C81 1 0x414, Shift 0x1C82 0x1C82 1 0x41E, Shift 0x1C83 0x1C84 1 0x421,
      Shift 0x1C85 0x1C85 1 0x422]"

definition caseRules_1C86 :: "caseRule list" where
  "caseRules_1C86 =
     [Shift 0x1C86 0x1C86 1 0x42A, Shift 0x1C87 0x1C87 1 0x462, Shift 0x1C88 0x1C88 1 0xA64A,
      Shift 0x1D79 0x1D79 1 0xA77D, Shift 0x1D7D 0x1D7D 1 0x2C63, Shift 0x1D8E 0x1D8E 1 0xA7C6,
      Shift 0x1E01 0x1E95 2 0x1E00, Special 0x1E96 [0x48, 0x331], Special 0x1E97 [0x54, 0x308],
      Special 0x1E98 [0x57, 0x30A], Special 0x1E99 [0x59, 0x30A], Special 0x1E9A [0x41, 0x2BE],
      Shift 0x1E9B 0x1E9B 1 0x1E60, Shift 0x1EA1 0x1EFF 2 0x1EA0, Shift 0x1F00 0x1F07 1 0x1F08,
      Shift 0x1F10 0x1F15 1 0x1F18]"

definition caseRules_1F20 :: "caseRule list" where
  "caseRules_1F20 =
     [Shift 0x1F20 0x1F27 1 0x1F28, Shift 0x1F30 0x1F37 1 0x1F38, Shift 0x1F40 0x1F45 1 0x1F48,
      Special 0x1F50 [0x3A5, 0x313], Shift 0x1F51 0x1F57 2 0x1F59,
      Special 0x1F52 [0x3A5, 0x313, 0x300], Special 0x1F54 [0x3A5, 0x313, 0x301],
      Special 0x1F56 [0x3A5, 0x313, 0x342], Shift 0x1F60 0x1F67 1 0x1F68,
      Shift 0x1F70 0x1F71 1 0x1FBA, Shift 0x1F72 0x1F75 1 0x1FC8, Shift 0x1F76 0x1F77 1 0x1FDA,
      Shift 0x1F78 0x1F79 1 0x1FF8, Shift 0x1F7A 0x1F7B 1 0x1FEA, Shift 0x1F7C 0x1F7D 1 0x1FFA,
      Special 0x1F80 [0x1F08, 0x399]]"

definition caseRules_1F81 :: "caseRule list" where
  "caseRules_1F81 =
     [Special 0x1F81 [0x1F09, 0x399], Special 0x1F82 [0x1F0A, 0x399],
      Special 0x1F83 [0x1F0B, 0x399], Special 0x1F84 [0x1F0C, 0x399],
      Special 0x1F85 [0x1F0D, 0x399], Special 0x1F86 [0x1F0E, 0x399],
      Special 0x1F87 [0x1F0F, 0x399], Special 0x1F88 [0x1F08, 0x399],
      Special 0x1F89 [0x1F09, 0x399], Special 0x1F8A [0x1F0A, 0x399],
      Special 0x1F8B [0x1F0B, 0x399], Special 0x1F8C [0x1F0C, 0x399],
      Special 0x1F8D [0x1F0D, 0x399], Special 0x1F8E [0x1F0E, 0x399],
      Special 0x1F8F [0x1F0F, 0x399], Special 0x1F90 [0x1F28, 0x399]]"

definition caseRules_1F91 :: "caseRule list" where
  "caseRules_1F91 =
     [Special 0x1F91 [0x1F29, 0x399], Special 0x1F92 [0x1F2A, 0x399],
      Special 0x1F93 [0x1F2B, 0x399], Special 0x1F94 [0x1F2C, 0x399],
      Special 0x1F95 [0x1F2D, 0x399], Special 0x1F96 [0x1F2E, 0x399],
      Special 0x1F97 [0x1F2F, 0x399], Special 0x1F98 [0x1F28, 0x399],
      Special 0x1F99 [0x1F29, 0x399], Special 0x1F9A [0x1F2A, 0x399],
      Special 0x1F9B [0x1F2B, 0x399], Special 0x1F9C [0x1F2C, 0x399],
      Special 0x1F9D [0x1F2D, 0x399], Special 0x1F9E [0x1F2E, 0x399],
      Special 0x1F9F [0x1F2F, 0x399], Special 0x1FA0 [0x1F68, 0x399]]"

definition caseRules_1FA1 :: "caseRule list" where
  "caseRules_1FA1 =
     [Special 0x1FA1 [0x1F69, 0x399], Special 0x1FA2 [0x1F6A, 0x399],
      Special 0x1FA3 [0x1F6B, 0x399], Special 0x1FA4 [0x1F6C, 0x399],
      Special 0x1FA5 [0x1F6D, 0x399], Special 0x1FA6 [0x1F6E, 0x399],
      Special 0x1FA7 [0x1F6F, 0x399], Special 0x1FA8 [0x1F68, 0x399],
      Special 0x1FA9 [0x1F69, 0x399], Special 0x1FAA [0x1F6A, 0x399],
      Special 0x1FAB [0x1F6B, 0x399], Special 0x1FAC [0x1F6C, 0x399],
      Special 0x1FAD [0x1F6D, 0x399], Special 0x1FAE [0x1F6E, 0x399],
      Special 0x1FAF [0x1F6F, 0x399], Shift 0x1FB0 0x1FB1 1 0x1FB8]"

definition caseRules_1FB2 :: "caseRule list" where
  "caseRules_1FB2 =
     [Special 0x1FB2 [0x1FBA, 0x399], Special 0x1FB3 [0x391, 0x399],
      Special 0x1FB4 [0x386, 0x399], Special 0x1FB6 [0x391, 0x342],
      Special 0x1FB7 [0x391, 0x342, 0x399], Special 0x1FBC [0x391, 0x399],
      Shift 0x1FBE 0x1FBE 1 0x399, Special 0x1FC2 [0x1FCA, 0x399],
      Special 0x1FC3 [0x397, 0x399], Special 0x1FC4 [0x389, 0x399],
      Special 0x1FC6 [0x397, 0x342], Special 0x1FC7 [0x397, 0x342, 0x399],
      Special 0x1FCC [0x397, 0x399], Shift 0x1FD0 0x1FD1 1 0x1FD8,
      Special 0x1FD2 [0x399, 0x308, 0x300], Special 0x1FD3 [0x399, 0x308, 0x301]]"

definition caseRules_1FD6 :: "caseRule list" where
  "caseRules_1FD6 =
     [Special 0x1FD6 [0x399, 0x342], Special 0x1FD7 [0x399, 0x308, 0x342],
      Shift 0x1FE0 0x1FE1 1 0x1FE8, Special 0x1FE2 [0x3A5, 0x308, 0x300],
      Special 0x1FE3 [0x3A5, 0x308, 0x301], Special 0x1FE4 [0x3A1, 0x313],
      Shift 0x1FE5 0x1FE5 1 0x1FEC, Special 0x1FE6 [0x3A5, 0x342],
      Special 0x1FE7 [0x3A5, 0x308, 0x342], Special 0x1FF2 [0x1FFA, 0x399],
      Special 0x1FF3 [0x3A9, 0x399], Special 0x1FF4 [0x38F, 0x399],
      Special 0x1FF6 [0x3A9, 0x342], Special 0x1FF7 [0x3A9, 0x342, 0x399],
      Special 0x1FFC [0x3A9, 0x399], Shift 0x214E 0x214E 1 0x2132]"

definition caseRules_2170 :: "caseRule list" where
  "caseRules_2170 =
     [Shift 0x2170 0x217F 1 0x2160, Shift 0x2184 0x2184 1 0x2183, Shift 0x24D0 0x24E9 1 0x24B6,
      Shift 0x2C30 0x2C5F 1 0x2C00, Shift 0x2C61 0x2C61 1 0x2C60, Shift 0x2C65 0x2C65 1 0x23A,
      Shift 0x2C66 0x2C66 1 0x23E, Shift 0x2C68 0x2C6C 2 0x2C67, Shift 0x2C73 0x2C73 1 0x2C72,
      Shift 0x2C76 0x2C76 1 0x2C75, Shift 0x2C81 0x2CE3 2 0x2C80, Shift 0x2CEC 0x2CEE 2 0x2CEB,
      Shift 0x2CF3 0x2CF3 1 0x2CF2, Shift 0x2D00 0x2D25 1 0x10A0, Shift 0x2D27 0x2D27 1 0x10C7,
      Shift 0x2D2D 0x2D2D 1 0x10CD]"

definition caseRules_A641 :: "caseRule list" where
  "caseRules_A641 =
     [Shift 0xA641 0xA66D 2 0xA640, Shift 0xA681 0xA69B 2 0xA680, Shift 0xA723 0xA72F 2 0xA722,
      Shift 0xA733 0xA76F 2 0xA732, Shift 0xA77A 0xA77C 2 0xA779, Shift 0xA77F 0xA787 2 0xA77E,
      Shift 0xA78C 0xA78C 1 0xA78B, Shift 0xA791 0xA793 2 0xA790, Shift 0xA794 0xA794 1 0xA7C4,
      Shift 0xA797 0xA7A9 2 0xA796, Shift 0xA7B5 0xA7C3 2 0xA7B4, Shift 0xA7C8 0xA7CA 2 0xA7C7,
      Shift 0xA7D1 0xA7D1 1 0xA7D0, Shift 0xA7D7 0xA7D9 2 0xA7D6, Shift 0xA7F6 0xA7F6 1 0xA7F5,
      Shift 0xAB53 0xAB53 1 0xA7B3]"

definition caseRules_AB70 :: "caseRule list" where
  "caseRules_AB70 =
     [Shift 0xAB70 0xABBF 1 0x13A0, Special 0xFB00 [0x46, 0x46], Special 0xFB01 [0x46, 0x49],
      Special 0xFB02 [0x46, 0x4C], Special 0xFB03 [0x46, 0x46, 0x49],
      Special 0xFB04 [0x46, 0x46, 0x4C], Special 0xFB05 [0x53, 0x54],
      Special 0xFB06 [0x53, 0x54], Special 0xFB13 [0x544, 0x546], Special 0xFB14 [0x544, 0x535],
      Special 0xFB15 [0x544, 0x53B], Special 0xFB16 [0x54E, 0x546],
      Special 0xFB17 [0x544, 0x53D], Shift 0xFF41 0xFF5A 1 0xFF21,
      Shift 0x10428 0x1044F 1 0x10400, Shift 0x104D8 0x104FB 1 0x104B0]"

definition caseRules_10597 :: "caseRule list" where
  "caseRules_10597 =
     [Shift 0x10597 0x105A1 1 0x10570, Shift 0x105A3 0x105B1 1 0x1057C,
      Shift 0x105B3 0x105B9 1 0x1058C, Shift 0x105BB 0x105BC 1 0x10594,
      Shift 0x10CC0 0x10CF2 1 0x10C80, Shift 0x118C0 0x118DF 1 0x118A0,
      Shift 0x16E60 0x16E7F 1 0x16E40, Shift 0x1E922 0x1E943 1 0x1E900]"

definition caseBlocks :: "(nat \<times> caseRule list) list" where
  "caseBlocks =
     [(0x185, caseRules_0061), (0x1C5, caseRules_0188), (0x240, caseRules_01C6),
      (0x266, caseRules_0242), (0x289, caseRules_0268), (0x3CB, caseRules_028A),
      (0x44F, caseRules_03CC), (0x1C85, caseRules_0450), (0x1F15, caseRules_1C86),
      (0x1F80, caseRules_1F20), (0x1F90, caseRules_1F81), (0x1FA0, caseRules_1F91),
      (0x1FB1, caseRules_1FA1), (0x1FD3, caseRules_1FB2), (0x214E, caseRules_1FD6),
      (0x2D2D, caseRules_2170), (0xAB53, caseRules_A641), (0x104FB, caseRules_AB70),
      (0x1E943, caseRules_10597)]"

definition toUppercaseCP :: "nat \<Rightarrow> nat list" where
  "toUppercaseCP c =
     (case find (\<lambda>(bound, rules). c \<le> bound) caseBlocks of
        None \<Rightarrow> [c]
      | Some (bound, rules) \<Rightarrow>
          (case find (applies c) rules of None \<Rightarrow> [c] | Some r \<Rightarrow> result c r))"

text \<open>
  Reading a string as code points pairs a leading surrogate with the trailing surrogate
  that follows it; every other code unit, a lone surrogate included, is a code point by
  itself.
\<close>

definition isLeadingSurrogate :: "codeUnit \<Rightarrow> bool" where
  "isLeadingSurrogate u = (0xD800 \<le> unat u \<and> unat u \<le> 0xDBFF)"

definition isTrailingSurrogate :: "codeUnit \<Rightarrow> bool" where
  "isTrailingSurrogate u = (0xDC00 \<le> unat u \<and> unat u \<le> 0xDFFF)"

fun stringToCodePoints :: "jsstring \<Rightarrow> nat list" where
  "stringToCodePoints (u # v # rest) =
     (if isLeadingSurrogate u \<and> isTrailingSurrogate v
      then (0x10000 + (unat u - 0xD800) * 0x400 + (unat v - 0xDC00)) # stringToCodePoints rest
      else unat u # stringToCodePoints (v # rest))"
| "stringToCodePoints [u] = [unat u]"
| "stringToCodePoints [] = []"

definition utf16EncodeCodePoint :: "nat \<Rightarrow> jsstring" where
  "utf16EncodeCodePoint cp =
     (if cp < 0x10000 then [of_nat cp]
      else [of_nat (0xD800 + (cp - 0x10000) div 0x400),
            of_nat (0xDC00 + (cp - 0x10000) mod 0x400)])"

definition codePointsToString :: "nat list \<Rightarrow> jsstring" where
  "codePointsToString cps = concat (map utf16EncodeCodePoint cps)"

definition toUpperCase :: "jsstring \<Rightarrow> jsstring" where
  "toUpperCase s = codePointsToString (concat (map toUppercaseCP (stringToCodePoints s)))"

subsection \<open>\<^verbatim>\<open>idCoerce\<close>\<close>

text \<open>
  \<^verbatim>\<open>const idCoerce = id => ObjectId(id);\<close>

  \<^verbatim>\<open>ObjectId\<close> is the constructor of the MongoDB driver, which is not part of the
  repository.  It is a parameter of the model: a function from the argument (\<open>None\<close> for
  \<^verbatim>\<open>null\<close>) to the constructed object or to the error it throws.
\<close>

definition idCoerce ::
  "(jsstring option \<Rightarrow> jserror + 'o) \<Rightarrow> jsstring option \<Rightarrow> jserror + 'o"
where
  "idCoerce ObjectId ident = ObjectId ident"

subsection \<open>\<^verbatim>\<open>accessionFormat\<close>\<close>

text \<open>
  \<^verbatim>\<open>const accessionFormat = new RegExp('^' + process.env.ACCESSION_PREFIX + '\\d{5}$');\<close>

  The prefix is read from the environment and spliced into the pattern as it is, so its
  characters are read as pattern syntax.  The fragment of the pattern language embedded
  here is: a character other than the syntax characters
  \<^verbatim>\<open>^ $ \ . * + ? ( ) [ ] { } |\<close>, which matches itself, and the dot, which matches
  any code unit but the line terminators U+000A, U+000D, U+2028 and U+2029.  For a prefix
  with another syntax character \<open>accessionFormat\<close> is \<open>None\<close>: the pattern is outside the
  fragment.  For a prefix of the fragment it is the \<^verbatim>\<open>test\<close> method of the regular
  expression: the atoms of the prefix match from the start of the string, five decimal
  digits follow, and the string ends there.  The expression has no flags, so \<^verbatim>\<open>test\<close>
  keeps no state between calls.
\<close>

datatype patternAtom = PatternCharacter codeUnit | Dot

definition isSyntaxCharacter :: "codeUnit \<Rightarrow> bool" where
  "isSyntaxCharacter u =
     List.member [0x5E, 0x24, 0x5C, 0x2E, 0x2A, 0x2B, 0x3F, 0x28, 0x29, 0x5B, 0x5D, 0x7B, 0x7D, 0x7C]
       (unat u)"

fun parsePattern :: "jsstring \<Rightarrow> patternAtom list option" where
  "parsePattern [] = Some []"
| "parsePattern (u # us) =
     (if u = 0x2E then map_option (\<lambda>atoms. Dot # atoms) (parsePattern us)
      else if isSyntaxCharacter u then None
      else map_option (\<lambda>atoms. PatternCharacter u # atoms) (parsePattern us))"

definition isLineTerminator :: "codeUnit \<Rightarrow> bool" where
  "isLineTerminator u = List.member [0x0A, 0x0D, 0x2028, 0x2029] (unat u)"

fun atomMatches :: "patternAtom \<Rightarrow> codeUnit \<Rightarrow> bool" where
  "atomMatches (PatternCharacter c) u = (u = c)"
| "atomMatches Dot u = (\<not> isLineTerminator u)"

fun matchAtoms :: "patternAtom list \<Rightarrow> jsstring \<Rightarrow> jsstring option" where
  "matchAtoms [] s = Some s"
| "matchAtoms (a # atoms) [] = None"
| "matchAtoms (a # atoms) (u # us) = (if atomMatches a u then matchAtoms atoms us else None)"

definition isDigit :: "codeUnit \<Rightarrow> bool" where
  "isDigit u = (0x30 \<le> unat u \<and> unat u \<le> 0x39)"

definition test :: "patternAtom list \<Rightarrow> jsstring \<Rightarrow> bool" where
  "test atoms s =
     (case matchAtoms atoms s of
        None \<Rightarrow> False
      | Some digits \<Rightarrow> length digits = 5 \<and> list_all isDigit digits)"

definition accessionFormat :: "jsstring \<Rightarrow> (jsstring \<Rightarrow> bool) option" where
  "accessionFormat prefix = map_option test (parsePattern prefix)"

definition regexLiteral :: "jsstring \<Rightarrow> bool" where
  "regexLiteral prefix = list_all (\<lambda>u. \<not> isSyntaxCharacter u) prefix"

subsection \<open>\<^verbatim>\<open>accessionCoerce\<close>\<close>

text \<open>
  The first parameter is the \<^verbatim>\<open>test\<close> method of the module's constant
  \<^verbatim>\<open>accessionFormat\<close>, whatever pattern it was built from.
\<close>

definition accessionCoerce :: "(jsstring \<Rightarrow> bool) \<Rightarrow> jsstring \<Rightarrow> jserror + jsstring" where
  "accessionCoerce format accession =
     (let output = toUpperCase (trim accession)
      in if \<not> format output then Inl (Error ''Not a valid accession'')
         else Inr output)"

subsection \<open>\<^verbatim>\<open>idOrAccessionCoerce\<close>\<close>

text \<open>
  The value the coercer returns is an object of the driver or an accession string;
  \<^verbatim>\<open>null\<close> is \<open>None\<close>.  \<open>truthy\<close> is the test of \<^verbatim>\<open>if (output)\<close>: an object is
  truthy, a string is truthy unless it is empty.
\<close>

datatype 'o idOrAccession = RawId 'o | Accession jsstring

fun truthy :: "'o idOrAccession \<Rightarrow> bool" where
  "truthy (RawId _) = True"
| "truthy (Accession a) = (a \<noteq> [])"

fun idOrAccessionCoerce ::
  "(jsstring option \<Rightarrow> jserror + 'o) \<Rightarrow> (jsstring \<Rightarrow> bool) \<Rightarrow> jsstring option
     \<Rightarrow> jserror + 'o idOrAccession option"
where
  "idOrAccessionCoerce ObjectId format None = Inr None"
| "idOrAccessionCoerce ObjectId format (Some []) = Inr None"
| "idOrAccessionCoerce ObjectId format (Some (c # cs)) =
     (let output =
        (case idCoerce ObjectId (Some (c # cs)) of
           Inr oid \<Rightarrow> Some (RawId oid)
         | Inl _ \<Rightarrow>
             (case accessionCoerce format (c # cs) of
                Inr a \<Rightarrow> Some (Accession a)
              | Inl _ \<Rightarrow> None))
      in case output of
           Some v \<Rightarrow> if truthy v then Inr (Some v) else Inl (Error ''Invalid ID or accession'')
         | None \<Rightarrow> Inl (Error ''Invalid ID or accession''))"

subsection \<open>The identifier of the cleanup command\<close>

text \<open>
  The builder of \<^verbatim>\<open>cleanup [id]\<close> (aliases clean, drop, clear, delete, remove) declares
  its positional as \<^verbatim>\<open>describe: 'ID to clean up', type: 'string', coerce: idCoerce\<close>;
  the builder of \<^verbatim>\<open>unpublish <id|accession>\<close> declares
  \<^verbatim>\<open>describe: 'ID or accession to unpublish', coerce: idOrAccessionCoerce\<close>.
\<close>

definition cleanupCoerce ::
  "(jsstring option \<Rightarrow> jserror + 'o) \<Rightarrow> jsstring option \<Rightarrow> jserror + 'o"
where
  "cleanupCoerce ObjectId ident = idCoerce ObjectId ident"

definition unpublishCoerce ::
  "(jsstring option \<Rightarrow> jserror + 'o) \<Rightarrow> (jsstring \<Rightarrow> bool) \<Rightarrow> jsstring option
     \<Rightarrow> jserror + 'o idOrAccession option"
where
  "unpublishCoerce ObjectId format ident = idOrAccessionCoerce ObjectId format ident"

subsection \<open>An instance of the driver's constructor\<close>

text \<open>
  To evaluate the coercers at concrete inputs, \<open>driverObjectId\<close> instantiates the parameter
  with the rule the driver states in its error message: a string is accepted when it has
  12 characters or is 24 hexadecimal digits, \<^verbatim>\<open>null\<close> yields a freshly generated id.
\<close>

datatype objectId = ObjectIdFrom jsstring | ObjectIdGenerated

definition isHexDigit :: "codeUnit \<Rightarrow> bool" where
  "isHexDigit u =
     (let n = unat u
      in (48 \<le> n \<and> n \<le> 57) \<or> (65 \<le> n \<and> n \<le> 70) \<or> (97 \<le> n \<and> n \<le> 102))"

definition driverObjectId :: "jsstring option \<Rightarrow> jserror + objectId" where
  "driverObjectId ident =
     (case ident of
        None \<Rightarrow> Inr ObjectIdGenerated
      | Some s \<Rightarrow>
          if length s = 12 \<or> (length s = 24 \<and> list_all isHexDigit s) then Inr (ObjectIdFrom s)
          else Inl (Error
            ''Argument passed in must be a single String of 12 bytes or a string of 24 hex characters''))"

subsection \<open>Two accession formats\<close>

text \<open>
  The \<^verbatim>\<open>test\<close> methods of the patterns built from the prefix \<^verbatim>\<open>MCNS\<close>, that of the
  commented-out pattern \<^verbatim>\<open>/^MCNS\d{5}$/\<close>, and from the prefix \<^verbatim>\<open>M.NS\<close>.
\<close>

definition mcnsFormat :: "jsstring \<Rightarrow> bool" where
  "mcnsFormat = test (map PatternCharacter (js ''MCNS''))"

definition mDotNsFormat :: "jsstring \<Rightarrow> bool" where
  "mDotNsFormat = test [PatternCharacter 0x4D, Dot, PatternCharacter 0x4E, PatternCharacter 0x53]"

text \<open>
  An error message names an input when the input occurs in it as a contiguous run of
  characters.
\<close>

fun startsWith :: "'a list \<Rightarrow> 'a list \<Rightarrow> bool" where
  "startsWith s [] = True"
| "startsWith [] (p # ps) = False"
| "startsWith (c # cs) (p # ps) = (c = p \<and> startsWith cs ps)"

fun mentions :: "'a list \<Rightarrow> 'a list \<Rightarrow> bool" where
  "mentions [] input = (input = [])"
| "mentions (c # cs) input = (startsWith (c # cs) input \<or> mentions cs input)"

subsection \<open>Checks on the case rules\<close>

text \<open>
  The check of a rule lists the code points the rule maps, with their images, and tests
  each pair: the code point is a Unicode scalar value and no white space, and its image
  is a non-empty sequence of scalar values that are no white space and that the mapping
  leaves as they are.
\<close>

function expandShift :: "nat \<Rightarrow> nat \<Rightarrow> nat \<Rightarrow> nat \<Rightarrow> (nat \<times> nat list) list" where
  "expandShift lo hi step up =
     (if hi < lo \<or> step = 0 then []
      else (lo, [up]) # expandShift (lo + step) hi step (up + step))"
  by pat_completeness auto
termination
  by (relation "measure (\<lambda>(lo, hi, step, up). Suc hi - lo)") auto

declare expandShift.simps [simp del]

definition scalar :: "nat \<Rightarrow> bool" where
  "scalar c = ((c < 0xD800 \<or> 0xDFFF < c) \<and> c < 0x110000)"

fun entryOK :: "nat \<times> nat list \<Rightarrow> bool" where
  "entryOK (c, v) =
     (\<not> isWhiteSpaceCP c \<and> scalar c \<and> v \<noteq> [] \<and>
      list_all (\<lambda>d. \<not> isWhiteSpaceCP d \<and> scalar d \<and> toUppercaseCP d = [d]) v)"

fun ruleOK :: "caseRule \<Rightarrow> bool" where
  "ruleOK (Shift lo hi step up) = (0 < step \<and> list_all entryOK (expandShift lo hi step up))"
| "ruleOK (Special k v) = entryOK (k, v)"

text \<open>
  A sequence of code points is the reading of a string when no leading surrogate in it
  is followed by a trailing surrogate and every code point is below U+110000.
\<close>

fun wellFormed :: "nat list \<Rightarrow> bool" where
  "wellFormed [] = True"
| "wellFormed [c] = (c < 0x110000)"
| "wellFormed (c # d # cps) =
     (c < 0x110000 \<and>
      \<not> ((0xD800 \<le> c \<and> c \<le> 0xDBFF) \<and> (0xDC00 \<le> d \<and> d \<le> 0xDFFF)) \<and>
      wellFormed (d # cps))"

section \<open>The delete command\<close>

subsection \<open>Objects, the database handler and the trace of a run\<close>

text \<open>
  \<open>getProp\<close> is the property read \<^verbatim>\<open>value.key\<close> for the keys the module reads
  (\<^verbatim>\<open>project\<close>, \<^verbatim>\<open>name\<close>, \<^verbatim>\<open>md\<close>, \<^verbatim>\<open>filename\<close>, \<^verbatim>\<open>metadata\<close>): a
  \<^verbatim>\<open>TypeError\<close> on \<^verbatim>\<open>undefined\<close> and \<^verbatim>\<open>null\<close>, the own property of an object or
  \<^verbatim>\<open>undefined\<close> when it has none, \<^verbatim>\<open>undefined\<close> on a string or a number.
\<close>

definition ownProp :: "(string \<times> jsval) list \<Rightarrow> string \<Rightarrow> jsval" where
  "ownProp props key = (case map_of props key of Some v \<Rightarrow> v | None \<Rightarrow> Undefined)"

fun getProp :: "jsval \<Rightarrow> string \<Rightarrow> jserror + jsval" where
  "getProp Undefined key = Inl (TypeError (''Cannot read property '' @ key @ '' of undefined''))"
| "getProp Null key = Inl (TypeError (''Cannot read property '' @ key @ '' of null''))"
| "getProp (Obj props) key = Inr (ownProp props key)"
| "getProp (Str s) key = Inr Undefined"
| "getProp (Num n) key = Inr Undefined"

record 'c target =
  collection :: 'c
  document :: jsval

text \<open>
  The database handler is the second argument of the function; its class is not part of
  the module.  Each method is a field: the value it returns or resolves to, or the error
  it throws or rejects with.  \<open>findId\<close> resolves to a target or to \<^verbatim>\<open>null\<close> (\<open>None\<close>).
\<close>

record ('i, 'c) database =
  findId :: "'i \<Rightarrow> jserror + 'c target option"
  nameCollectionDocument :: "'c \<Rightarrow> string"
  analyses :: 'c
  files :: 'c
  syncProject :: "jsval \<Rightarrow> jserror + jsval"
  deleteAnalysis :: "jsval \<Rightarrow> jsval \<Rightarrow> jserror + jsval"
  deleteFile :: "jsval \<Rightarrow> jsval \<Rightarrow> jserror + jsval"

record 'i args =
  idArg :: 'i
  confirm :: bool

text \<open>
  A run yields the calls it made, in order, and the value or error it ended with.  The
  colouring of console text by \<^verbatim>\<open>chalk\<close> is left out of the logged strings.
\<close>

datatype ('i, 'c) event =
    ConsoleLog string
  | ConsoleError string
  | FindId 'i
  | NameCollectionDocument 'c
  | UserConfirm string
  | SyncProject jsval
  | DeleteAnalysis jsval jsval
  | DeleteFile jsval jsval

type_synonym ('i, 'c, 'a) run = "('i, 'c) event list \<times> (jserror + 'a)"

definition throw :: "jserror \<Rightarrow> ('i, 'c, 'a) run" where
  "throw e = ([], Inl e)"

definition compute :: "jserror + 'a \<Rightarrow> ('i, 'c, 'a) run" where
  "compute r = ([], r)"

definition call :: "('i, 'c) event \<Rightarrow> jserror + 'a \<Rightarrow> ('i, 'c, 'a) run" where
  "call ev r = ([ev], r)"

definition andThen :: "('i, 'c, 'a) run \<Rightarrow> ('a \<Rightarrow> ('i, 'c, 'b) run) \<Rightarrow> ('i, 'c, 'b) run" where
  "andThen m k =
     (case m of
        (es, Inl e) \<Rightarrow> (es, Inl e)
      | (es, Inr v) \<Rightarrow> (case k v of (es', r) \<Rightarrow> (es @ es', r)))"

fun isUserConfirm :: "('i, 'c) event \<Rightarrow> bool" where
  "isUserConfirm (UserConfirm _) = True"
| "isUserConfirm _ = False"

fun isHandlerWrite :: "('i, 'c) event \<Rightarrow> bool" where
  "isHandlerWrite (SyncProject _) = True"
| "isHandlerWrite (DeleteAnalysis _ _) = True"
| "isHandlerWrite (DeleteFile _ _) = True"
| "isHandlerWrite _ = False"

definition quoted :: "string \<Rightarrow> string" where
  "quoted s = CHR 0x27 # s @ [CHR 0x27]"

subsection \<open>\<^verbatim>\<open>deleteFunction\<close>\<close>

text \<open>
  The part of the function below the comment \<^verbatim>\<open>Use the right deleting protocol according
  to the type of document we are about to delete\<close>: the two branches on
  \<^verbatim>\<open>target.collection\<close> and the final \<^verbatim>\<open>throw\<close>.
\<close>

definition deletionProtocol ::
  "('i, 'c) database \<Rightarrow> 'c target \<Rightarrow> string \<Rightarrow> ('i, 'c, jsval) run"
where
  "deletionProtocol database target documentName =
     (if collection target = analyses database then
        andThen (compute (getProp (document target) ''project'')) (\<lambda>project.
        andThen (call (SyncProject project) (syncProject database project)) (\<lambda>_.
        andThen (compute (getProp (document target) ''name'')) (\<lambda>name.
        andThen (compute (getProp (document target) ''md'')) (\<lambda>mdIndex.
        call (DeleteAnalysis name mdIndex) (deleteAnalysis database name mdIndex)))))
      else if collection target = files database then
        andThen (compute (getProp (document target) ''metadata'')) (\<lambda>metadata.
        andThen (compute (getProp metadata ''project'')) (\<lambda>project.
        andThen (call (SyncProject project) (syncProject database project)) (\<lambda>_.
        andThen (compute (getProp (document target) ''filename'')) (\<lambda>filename.
        andThen (compute (getProp (document target) ''metadata'')) (\<lambda>metadata.
        andThen (compute (getProp metadata ''md'')) (\<lambda>mdIndex.
        call (DeleteFile filename mdIndex) (deleteFile database filename mdIndex)))))))
      else throw (Error (''Deletion of '' @ documentName @ '' is not yet supported'')))"

text \<open>
  The whole function.  The identifier \<^verbatim>\<open>userConfirm\<close> is free in the module, which
  requires \<^verbatim>\<open>chalk\<close> and nothing else; the first parameter is what the identifier is
  bound to where the module runs: \<open>None\<close> when it is unbound, so that evaluating it throws
  a \<^verbatim>\<open>ReferenceError\<close>, or the function that shows the prompt and resolves to the
  answer.  \<open>idText\<close> is the conversion of the id to a string in a template literal.
\<close>

definition deleteFunctionIn ::
  "(string \<Rightarrow> jserror + jsval) option \<Rightarrow> ('i \<Rightarrow> string) \<Rightarrow> 'i args \<Rightarrow> ('i, 'c) database
     \<Rightarrow> ('i, 'c, jsval) run"
where
  "deleteFunctionIn userConfirm idText args database =
     andThen (call (ConsoleLog (''== Deletion of '' @ quoted (idText (idArg args)))) (Inr Undefined))
       (\<lambda>_.
     andThen (call (FindId (idArg args)) (findId database (idArg args))) (\<lambda>found.
     case found of
       None \<Rightarrow>
         call (ConsoleError (''Nothing found for ID '' @ quoted (idText (idArg args))))
           (Inr Undefined)
     | Some target \<Rightarrow>
         andThen (call (NameCollectionDocument (collection target))
                    (Inr (nameCollectionDocument database (collection target))))
           (\<lambda>documentName.
         if \<not> confirm args then
           (case userConfirm of
              None \<Rightarrow> throw (ReferenceError ''userConfirm is not defined'')
            | Some ask \<Rightarrow>
                (let prompt = ''Confirm deletion of of '' @ documentName @ '' with id '' @
                              idText (idArg args) @ '' [y/*]''
                 in andThen (call (UserConfirm prompt) (ask prompt)) (\<lambda>confirmation.
                    if confirmation \<noteq> Str ''y'' \<and> confirmation \<noteq> Str ''Y''
                    then call (ConsoleLog ''Data deletion has been aborted'') (Inr Undefined)
                    else deletionProtocol database target documentName)))
         else deletionProtocol database target documentName)))"

definition deleteFunction ::
  "('i \<Rightarrow> string) \<Rightarrow> 'i args \<Rightarrow> ('i, 'c) database \<Rightarrow> ('i, 'c, jsval) run"
where
  "deleteFunction idText args database = deleteFunctionIn None idText args database"

subsection \<open>A handler for concrete runs\<close>

text \<open>
  A handler with three collections whose calls all succeed, holding one document under
  the id \<^verbatim>\<open>5d08c0d8174bf85a17e00861\<close> in the collection given.
\<close>

definition sampleDatabase :: "string \<Rightarrow> jsval \<Rightarrow> (string, string) database" where
  "sampleDatabase coll doc =
     \<lparr> findId = (\<lambda>i. if i = ''5d08c0d8174bf85a17e00861''
                      then Inr (Some \<lparr> collection = coll, document = doc \<rparr>) else Inr None),
       nameCollectionDocument =
         (\<lambda>c. if c = ''analyses'' then ''analysis''
              else if c = ''fs.files'' then ''file'' else ''project''),
       analyses = ''analyses'',
       files = ''fs.files'',
       syncProject = (\<lambda>_. Inr Undefined),
       deleteAnalysis = (\<lambda>_ _. Inr Undefined),
       deleteFile = (\<lambda>_ _. Inr Undefined) \<rparr>"

text \<open>
  Three documents: an analysis, a file as GridFS stores it (the file name at the top
  level, the project and the MD index under \<^verbatim>\<open>metadata\<close>), and a file document whose
  name is held under \<^verbatim>\<open>metadata\<close> only.
\<close>

definition rmsdAnalysis :: jsval where
  "rmsdAnalysis = Obj [(''name'', Str ''md.rmsd''), (''md'', Num 1), (''project'', Str ''P1'')]"

definition gridFile :: jsval where
  "gridFile =
     Obj [(''filename'', Str ''traj.xtc''),
          (''metadata'', Obj [(''md'', Num 2), (''project'', Str ''P2'')])]"

definition metadataOnlyFile :: jsval where
  "metadataOnlyFile =
     Obj [(''metadata'',
           Obj [(''filename'', Str ''traj.xtc''), (''md'', Num 2), (''project'', Str ''P2'')])]"

definition sampleArgs :: "bool \<Rightarrow> string args" where
  "sampleArgs flag = \<lparr> idArg = ''5d08c0d8174bf85a17e00861'', confirm = flag \<rparr>"

section \<open>Lemmas on the case rules\<close>

lemmas caseRules_defs =
  caseRules_0061_def caseRules_0188_def caseRules_01C6_def caseRules_0242_def
  caseRules_0268_def caseRules_028A_def caseRules_03CC_def caseRules_0450_def
  caseRules_1C86_def caseRules_1F20_def caseRules_1F81_def caseRules_1F91_def
  caseRules_1FA1_def caseRules_1FB2_def caseRules_1FD6_def caseRules_2170_def
  caseRules_A641_def caseRules_AB70_def caseRules_10597_def

lemma rulesOK_0061: "list_all ruleOK caseRules_0061"
  unfolding caseRules_0061_def
  by (simp add: expandShift.simps isWhiteSpaceCP_def scalar_def toUppercaseCP_def caseBlocks_def)
     (simp add: caseRules_defs)

lemma rulesOK_0188: "list_all ruleOK caseRules_0188"
  unfolding caseRules_0188_def
  by (simp add: expandShift.simps isWhiteSpaceCP_def scalar_def toUppercaseCP_def caseBlocks_def)
     (simp add: caseRules_defs)

lemma rulesOK_01C6: "list_all ruleOK caseRules_01C6"
  unfolding caseRules_01C6_def
  by (simp add: expandShift.simps isWhiteSpaceCP_def scalar_def toUppercaseCP_def caseBlocks_def)
     (simp add: caseRules_defs)

lemma rulesOK_0242: "list_all ruleOK caseRules_0242"
  unfolding caseRules_0242_def
  by (simp add: expandShift.simps isWhiteSpaceCP_def scalar_def toUppercaseCP_def caseBlocks_def)
     (simp add: caseRules_defs)

lemma rulesOK_0268: "list_all ruleOK caseRules_0268"
  unfolding caseRules_0268_def
  by (simp add: expandShift.simps isWhiteSpaceCP_def scalar_def toUppercaseCP_def caseBlocks_def)
     (simp add: caseRules_defs)

lemma rulesOK_028A: "list_all ruleOK caseRules_028A"
  unfolding caseRules_028A_def
  by (simp add: expandShift.simps isWhiteSpaceCP_def scalar_def toUppercaseCP_def caseBlocks_def)
     (simp add: caseRules_defs)

lemma rulesOK_03CC: "list_all ruleOK caseRules_03CC"
  unfolding caseRules_03CC_def
  by (simp add: expandShift.simps isWhiteSpaceCP_def scalar_def toUppercaseCP_def caseBlocks_def)
     (simp add: caseRules_defs)

lemma rulesOK_0450: "list_all ruleOK caseRules_0450"
  unfolding caseRules_0450_def
  by (simp add: expandShift.simps isWhiteSpaceCP_def scalar_def toUppercaseCP_def caseBlocks_def)
     (simp add: caseRules_defs)

lemma rulesOK_1C86: "list_all ruleOK caseRules_1C86"
  unfolding caseRules_1C86_def
  by (simp add: expandShift.simps isWhiteSpaceCP_def scalar_def toUppercaseCP_def caseBlocks_def)
     (simp add: caseRules_defs)

lemma rulesOK_1F20: "list_all ruleOK caseRules_1F20"
  unfolding caseRules_1F20_def
  by (simp add: expandShift.simps isWhiteSpaceCP_def scalar_def toUppercaseCP_def caseBlocks_def)
     (simp add: caseRules_defs)

lemma rulesOK_1F81: "list_all ruleOK caseRules_1F81"
  unfolding caseRules_1F81_def
  by (simp add: expandShift.simps isWhiteSpaceCP_def scalar_def toUppercaseCP_def caseBlocks_def)
     (simp add: caseRules_defs)

lemma rulesOK_1F91: "list_all ruleOK caseRules_1F91"
  unfolding caseRules_1F91_def
  by (simp add: expandShift.simps isWhiteSpaceCP_def scalar_def toUppercaseCP_def caseBlocks_def)
     (simp add: caseRules_defs)

lemma rulesOK_1FA1: "list_all ruleOK caseRules_1FA1"
  unfolding caseRules_1FA1_def
  by (simp add: expandShift.simps isWhiteSpaceCP_def scalar_def toUppercaseCP_def caseBlocks_def)
     (simp add: caseRules_defs)

lemma rulesOK_1FB2: "list_all ruleOK caseRules_1FB2"
  unfolding caseRules_1FB2_def
  by (simp add: expandShift.simps isWhiteSpaceCP_def scalar_def toUppercaseCP_def caseBlocks_def)
     (simp add: caseRules_defs)

lemma rulesOK_1FD6: "list_all ruleOK caseRules_1FD6"
  unfolding caseRules_1FD6_def
  by (simp add: expandShift.simps isWhiteSpaceCP_def scalar_def toUppercaseCP_def caseBlocks_def)
     (simp add: caseRules_defs)

lemma rulesOK_2170: "list_all ruleOK caseRules_2170"
  unfolding caseRules_2170_def
  by (simp add: expandShift.simps isWhiteSpaceCP_def scalar_def toUppercaseCP_def caseBlocks_def)
     (simp add: caseRules_defs)

lemma rulesOK_A641: "list_all ruleOK caseRules_A641"
  unfolding caseRules_A641_def
  by (simp add: expandShift.simps isWhiteSpaceCP_def scalar_def toUppercaseCP_def caseBlocks_def)
     (simp add: caseRules_defs)

lemma rulesOK_AB70: "list_all ruleOK caseRules_AB70"
  unfolding caseRules_AB70_def
  by (simp add: expandShift.simps isWhiteSpaceCP_def scalar_def toUppercaseCP_def caseBlocks_def)
     (simp add: caseRules_defs)

lemma rulesOK_10597: "list_all ruleOK caseRules_10597"
  unfolding caseRules_10597_def
  by (simp add: expandShift.simps isWhiteSpaceCP_def scalar_def toUppercaseCP_def caseBlocks_def)
     (simp add: caseRules_defs)

lemma caseBlocks_ok: "list_all (\<lambda>(bound, rules). list_all ruleOK rules) caseBlocks"
  unfolding caseBlocks_def
  by (simp add: rulesOK_0061 rulesOK_0188 rulesOK_01C6 rulesOK_0242 rulesOK_0268 rulesOK_028A rulesOK_03CC rulesOK_0450 rulesOK_1C86 rulesOK_1F20 rulesOK_1F81 rulesOK_1F91 rulesOK_1FA1 rulesOK_1FB2 rulesOK_1FD6 rulesOK_2170 rulesOK_A641 rulesOK_AB70 rulesOK_10597)

lemma expandShift_sound:
  "0 < step \<Longrightarrow> lo \<le> c \<Longrightarrow> c \<le> hi \<Longrightarrow> (c - lo) mod step = 0 \<Longrightarrow>
   (c, [up + (c - lo)]) \<in> set (expandShift lo hi step up)"
proof (induction lo hi step up rule: expandShift.induct)
  case (1 lo hi step up)
  show ?case
  proof (cases "c = lo")
    case True
    then show ?thesis using "1.prems" by (subst expandShift.simps) simp
  next
    case False
    then have "0 < c - lo" using "1.prems" by simp
    then have ge: "step \<le> c - lo" using "1.prems"(4) by (metis dvd_imp_le mod_eq_0_iff_dvd)
    then have a: "lo + step \<le> c" using "1.prems"(2) by linarith
    have "(c - (lo + step)) mod step = 0"
      using "1.prems"(4) ge by (metis diff_diff_left le_mod_geq)
    then have "(c, [up + step + (c - (lo + step))]) \<in> set (expandShift (lo + step) hi step (up + step))"
      using "1.IH" "1.prems" a by simp
    moreover have "up + step + (c - (lo + step)) = up + (c - lo)" using a by simp
    ultimately show ?thesis using "1.prems" by (subst expandShift.simps) simp
  qed
qed

lemma find_SomeD: "find P xs = Some x \<Longrightarrow> x \<in> set xs \<and> P x"
  by (induction xs) (auto split: if_splits)

lemma ruleOK_applies: "ruleOK r \<Longrightarrow> applies c r \<Longrightarrow> entryOK (c, result c r)"
proof (cases r)
  case (Shift lo hi step up)
  assume "ruleOK r" and "applies c r"
  then have all: "list_all entryOK (expandShift lo hi step up)" using Shift by simp
  from \<open>ruleOK r\<close> \<open>applies c r\<close>
  have "0 < step" and "lo \<le> c" and "c \<le> hi" and "(c - lo) mod step = 0"
    using Shift by simp_all
  then have "(c, [up + (c - lo)]) \<in> set (expandShift lo hi step up)"
    by (rule expandShift_sound)
  moreover have "\<forall>e\<in>set (expandShift lo hi step up). entryOK e"
    using all by (simp only: list_all_iff)
  ultimately have "entryOK (c, [up + (c - lo)])" by blast
  then show ?thesis using Shift by (simp only: result.simps)
next
  case (Special k v)
  assume "ruleOK r" and "applies c r"
  then show ?thesis using Special by simp
qed

lemma toUppercaseCP_cases: "toUppercaseCP c = [c] \<or> entryOK (c, toUppercaseCP c)"
proof (cases "find (\<lambda>(bound, rules). c \<le> bound) caseBlocks")
  case None
  then show ?thesis by (simp add: toUppercaseCP_def)
next
  case (Some block)
  obtain bound rules where block: "block = (bound, rules)" by (cases block)
  have "block \<in> set caseBlocks" using Some by (simp add: find_SomeD)
  then have ok: "list_all ruleOK rules" using caseBlocks_ok block by (auto simp: list_all_iff)
  show ?thesis
  proof (cases "find (applies c) rules")
    case None
    then show ?thesis using Some block by (simp add: toUppercaseCP_def)
  next
    case (Some r)
    then have "r \<in> set rules" and "applies c r" by (simp_all add: find_SomeD)
    moreover have "\<forall>r\<in>set rules. ruleOK r" using ok by (simp only: list_all_iff)
    ultimately have "entryOK (c, result c r)" using ruleOK_applies by blast
    moreover have "toUppercaseCP c = result c r"
      using \<open>find (\<lambda>(bound, rules). c \<le> bound) caseBlocks = Some block\<close> block Some
      by (simp add: toUppercaseCP_def)
    ultimately show ?thesis by simp
  qed
qed

lemma toUppercaseCP_nonempty: "toUppercaseCP c \<noteq> []"
  using toUppercaseCP_cases [of c] by auto

lemma toUppercaseCP_fixed: "d \<in> set (toUppercaseCP c) \<Longrightarrow> toUppercaseCP d = [d]"
  using toUppercaseCP_cases [of c] by (auto simp: list_all_iff)

lemma toUppercaseCP_whiteSpace: "isWhiteSpaceCP c \<Longrightarrow> toUppercaseCP c = [c]"
  using toUppercaseCP_cases [of c] by auto

lemma toUppercaseCP_not_whiteSpace:
  "\<not> isWhiteSpaceCP c \<Longrightarrow> d \<in> set (toUppercaseCP c) \<Longrightarrow> \<not> isWhiteSpaceCP d"
  using toUppercaseCP_cases [of c] by (auto simp: list_all_iff)

lemma toUppercaseCP_not_scalar: "\<not> scalar c \<Longrightarrow> toUppercaseCP c = [c]"
  using toUppercaseCP_cases [of c] by auto

lemma toUppercaseCP_scalar: "scalar c \<Longrightarrow> d \<in> set (toUppercaseCP c) \<Longrightarrow> scalar d"
  using toUppercaseCP_cases [of c] by (auto simp: list_all_iff)

section \<open>Lemmas on code units and code points\<close>

lemma unat_codeUnit: "unat (u :: codeUnit) < 0x10000"
  using unsigned_less [of u, where 'a = nat] by simp

lemma unat_of_nat_codeUnit: "n < 0x10000 \<Longrightarrow> unat (of_nat n :: codeUnit) = n"
  by (simp add: unat_of_nat)

lemma of_nat_unat_codeUnit: "of_nat (unat u) = (u :: codeUnit)"
  by simp

lemma whiteSpace_not_surrogate:
  "isWhiteSpace u \<Longrightarrow> \<not> isLeadingSurrogate u \<and> \<not> isTrailingSurrogate u"
  by (auto simp: isWhiteSpace_def isWhiteSpaceCP_def isLeadingSurrogate_def
        isTrailingSurrogate_def)

lemma decode_not_leading:
  "\<not> isLeadingSurrogate u \<Longrightarrow> stringToCodePoints (u # s) = unat u # stringToCodePoints s"
  by (cases s) simp_all

lemma decode_not_trailing:
  "s = [] \<or> \<not> isTrailingSurrogate (hd s) \<Longrightarrow>
   stringToCodePoints (u # s) = unat u # stringToCodePoints s"
  by (cases s) auto

lemma decode_unpaired:
  "\<not> (isLeadingSurrogate u \<and> isTrailingSurrogate v) \<Longrightarrow>
   stringToCodePoints (u # v # rest) = unat u # stringToCodePoints (v # rest)"
  by (cases "isLeadingSurrogate u"; cases "isTrailingSurrogate v") simp_all

lemma decode_append:
  "t = [] \<or> \<not> isTrailingSurrogate (hd t) \<Longrightarrow>
   stringToCodePoints (s @ t) = stringToCodePoints s @ stringToCodePoints t"
proof (induction s rule: stringToCodePoints.induct)
  case (1 u v rest)
  then show ?case by simp
next
  case (2 u)
  then show ?case using decode_not_trailing [of t u] by simp
next
  case 3
  then show ?case by simp
qed

lemma decode_head:
  "stringToCodePoints (v # rest) = c # cs \<Longrightarrow> c = unat v \<or> 0x10000 \<le> c"
  by (cases rest) (auto split: if_splits)

lemma decode_nonempty: "s \<noteq> [] \<Longrightarrow> stringToCodePoints s \<noteq> []"
  by (induction s rule: stringToCodePoints.induct) auto

lemma decode_last:
  "s \<noteq> [] \<Longrightarrow> last (stringToCodePoints s) = unat (last s) \<or> 0x10000 \<le> last (stringToCodePoints s)"
proof (induction s rule: stringToCodePoints.induct)
  case (1 u v rest)
  show ?case
  proof (cases "isLeadingSurrogate u \<and> isTrailingSurrogate v")
    case True
    then have e: "stringToCodePoints (u # v # rest) =
        (0x10000 + (unat u - 0xD800) * 0x400 + (unat v - 0xDC00)) # stringToCodePoints rest"
      by simp
    show ?thesis
    proof (cases "rest = []")
      case True
      then show ?thesis unfolding e by simp
    next
      case False
      then have n: "stringToCodePoints rest \<noteq> []" by (rule decode_nonempty)
      have "last (stringToCodePoints rest) = unat (last rest) \<or>
            0x10000 \<le> last (stringToCodePoints rest)"
        using "1.IH"(1) [OF True False] .
      then show ?thesis unfolding e using n False by simp
    qed
  next
    case False
    then have e: "stringToCodePoints (u # v # rest) = unat u # stringToCodePoints (v # rest)"
      by (rule decode_unpaired)
    have n: "stringToCodePoints (v # rest) \<noteq> []" by (rule decode_nonempty) simp
    have "v # rest \<noteq> []" by simp
    then have "last (stringToCodePoints (v # rest)) = unat (last (v # rest)) \<or>
          0x10000 \<le> last (stringToCodePoints (v # rest))"
      using "1.IH"(2) [OF False] by blast
    then show ?thesis unfolding e using n by simp
  qed
next
  case (2 u)
  then show ?case by simp
next
  case 3
  then show ?case by simp
qed

lemma pair_bounds:
  "isLeadingSurrogate u \<Longrightarrow> isTrailingSurrogate v \<Longrightarrow>
   0x10000 \<le> 0x10000 + (unat u - 0xD800) * 0x400 + (unat v - 0xDC00) \<and>
   0x10000 + (unat u - 0xD800) * 0x400 + (unat v - 0xDC00) < 0x110000"
  unfolding isLeadingSurrogate_def isTrailingSurrogate_def by arith

lemma wellFormed_Cons:
  "c < 0x110000 \<Longrightarrow> wellFormed cps \<Longrightarrow>
   cps = [] \<or> \<not> ((0xD800 \<le> c \<and> c \<le> 0xDBFF) \<and> (0xDC00 \<le> hd cps \<and> hd cps \<le> 0xDFFF)) \<Longrightarrow>
   wellFormed (c # cps)"
  by (cases cps) auto

lemma wellFormed_decode: "wellFormed (stringToCodePoints s)"
proof (induction s rule: stringToCodePoints.induct)
  case (1 u v rest)
  show ?case
  proof (cases "isLeadingSurrogate u \<and> isTrailingSurrogate v")
    case True
    let ?p = "0x10000 + (unat u - 0xD800) * 0x400 + (unat v - 0xDC00)"
    have b: "0x10000 \<le> ?p \<and> ?p < 0x110000" using True by (simp add: pair_bounds)
    have "wellFormed (?p # stringToCodePoints rest)"
    proof (rule wellFormed_Cons)
      show "?p < 0x110000" using b by simp
      show "wellFormed (stringToCodePoints rest)" using "1.IH"(1) [OF True] .
      show "stringToCodePoints rest = [] \<or>
            \<not> ((0xD800 \<le> ?p \<and> ?p \<le> 0xDBFF) \<and>
               (0xDC00 \<le> hd (stringToCodePoints rest) \<and> hd (stringToCodePoints rest) \<le> 0xDFFF))"
        using b by simp
    qed
    moreover have "stringToCodePoints (u # v # rest) = ?p # stringToCodePoints rest"
      using True by simp
    ultimately show ?thesis by simp
  next
    case False
    obtain c cs where d: "stringToCodePoints (v # rest) = c # cs"
      using decode_nonempty [of "v # rest"] by (cases "stringToCodePoints (v # rest)") auto
    then have h: "c = unat v \<or> 0x10000 \<le> c" by (rule decode_head)
    have "wellFormed (unat u # stringToCodePoints (v # rest))"
    proof (rule wellFormed_Cons)
      show "unat u < 0x110000" using unat_codeUnit [of u] by simp
      show "wellFormed (stringToCodePoints (v # rest))" using "1.IH"(2) [OF False] .
      show "stringToCodePoints (v # rest) = [] \<or>
            \<not> ((0xD800 \<le> unat u \<and> unat u \<le> 0xDBFF) \<and>
               (0xDC00 \<le> hd (stringToCodePoints (v # rest)) \<and>
                hd (stringToCodePoints (v # rest)) \<le> 0xDFFF))"
        using False h d by (auto simp: isLeadingSurrogate_def isTrailingSurrogate_def)
    qed
    moreover have "stringToCodePoints (u # v # rest) = unat u # stringToCodePoints (v # rest)"
      using False by (rule decode_unpaired)
    ultimately show ?thesis by simp
  qed
next
  case (2 u)
  then show ?case using unat_codeUnit [of u] by simp
next
  case 3
  then show ?case by simp
qed

lemma surrogate_units:
  assumes "0x10000 \<le> c" and "c < 0x110000"
  shows "isLeadingSurrogate (of_nat (0xD800 + (c - 0x10000) div 0x400))"
    and "isTrailingSurrogate (of_nat (0xDC00 + (c - 0x10000) mod 0x400))"
    and "0x10000 + (unat (of_nat (0xD800 + (c - 0x10000) div 0x400) :: codeUnit) - 0xD800) * 0x400
           + (unat (of_nat (0xDC00 + (c - 0x10000) mod 0x400) :: codeUnit) - 0xDC00) = c"
proof -
  have h: "0xD800 + (c - 0x10000) div 0x400 < 0xDC00" using assms by simp
  have l: "0xDC00 + (c - 0x10000) mod 0x400 < 0xE000" by simp
  have uh: "unat (of_nat (0xD800 + (c - 0x10000) div 0x400) :: codeUnit)
              = 0xD800 + (c - 0x10000) div 0x400"
    using h by (intro unat_of_nat_codeUnit) simp
  have ul: "unat (of_nat (0xDC00 + (c - 0x10000) mod 0x400) :: codeUnit)
              = 0xDC00 + (c - 0x10000) mod 0x400"
    using l by (intro unat_of_nat_codeUnit) simp
  show "isLeadingSurrogate (of_nat (0xD800 + (c - 0x10000) div 0x400))"
    unfolding isLeadingSurrogate_def uh using h by simp
  show "isTrailingSurrogate (of_nat (0xDC00 + (c - 0x10000) mod 0x400))"
    unfolding isTrailingSurrogate_def ul using l by simp
  show "0x10000 + (unat (of_nat (0xD800 + (c - 0x10000) div 0x400) :: codeUnit) - 0xD800) * 0x400
           + (unat (of_nat (0xDC00 + (c - 0x10000) mod 0x400) :: codeUnit) - 0xDC00) = c"
    unfolding uh ul using assms by simp
qed

lemma encode_nonempty: "utf16EncodeCodePoint c \<noteq> []"
  by (simp add: utf16EncodeCodePoint_def)

lemma encode_head_trailing:
  "c < 0x110000 \<Longrightarrow>
   isTrailingSurrogate (hd (utf16EncodeCodePoint c)) = (0xDC00 \<le> c \<and> c \<le> 0xDFFF)"
proof (cases "c < 0x10000")
  case True
  then show ?thesis
    by (simp add: utf16EncodeCodePoint_def isTrailingSurrogate_def unat_of_nat_codeUnit)
next
  case False
  assume "c < 0x110000"
  then have "isLeadingSurrogate (hd (utf16EncodeCodePoint c))"
    using False surrogate_units(1) [of c] by (simp add: utf16EncodeCodePoint_def)
  then show ?thesis using False
    by (auto simp: isLeadingSurrogate_def isTrailingSurrogate_def)
qed

lemma decode_encode: "wellFormed cps \<Longrightarrow> stringToCodePoints (codePointsToString cps) = cps"
proof (induction cps rule: wellFormed.induct)
  case 1
  then show ?case by (simp add: codePointsToString_def)
next
  case (2 c)
  show ?case
  proof (cases "c < 0x10000")
    case True
    then show ?thesis
      by (simp add: codePointsToString_def utf16EncodeCodePoint_def unat_of_nat_codeUnit)
  next
    case False
    then have "0x10000 \<le> c" "c < 0x110000" using 2 by simp_all
    then show ?thesis using False surrogate_units [of c]
      by (simp add: codePointsToString_def utf16EncodeCodePoint_def)
  qed
next
  case (3 c d cps)
  then have wf: "wellFormed (d # cps)" and c: "c < 0x110000"
    and nb: "\<not> ((0xD800 \<le> c \<and> c \<le> 0xDBFF) \<and> (0xDC00 \<le> d \<and> d \<le> 0xDFFF))"
    by simp_all
  have d: "d < 0x110000" using wf by (cases cps) simp_all
  let ?X = "codePointsToString (d # cps)"
  have ih: "stringToCodePoints ?X = d # cps" using "3.IH" wf by simp
  have X: "codePointsToString (c # d # cps) = utf16EncodeCodePoint c @ ?X"
    by (simp add: codePointsToString_def)
  have Xne: "?X \<noteq> []" by (simp add: codePointsToString_def encode_nonempty)
  have hdX: "hd ?X = hd (utf16EncodeCodePoint d)"
    by (simp add: codePointsToString_def encode_nonempty)
  show ?case
  proof (cases "c < 0x10000")
    case True
    have e: "utf16EncodeCodePoint c = [of_nat c]" using True by (simp add: utf16EncodeCodePoint_def)
    have uc: "unat (of_nat c :: codeUnit) = c" using True by (rule unat_of_nat_codeUnit)
    obtain x xs where xs: "?X = x # xs" using Xne by (cases ?X) auto
    have "isTrailingSurrogate x = (0xDC00 \<le> d \<and> d \<le> 0xDFFF)"
      using encode_head_trailing [OF d] hdX xs by simp
    then have "\<not> (isLeadingSurrogate (of_nat c :: codeUnit) \<and> isTrailingSurrogate x)"
      using nb uc by (auto simp: isLeadingSurrogate_def)
    then have "stringToCodePoints (of_nat c # x # xs) = unat (of_nat c :: codeUnit) # stringToCodePoints (x # xs)"
      by (rule decode_unpaired)
    then show ?thesis unfolding X e using ih xs uc by simp
  next
    case False
    then have ge: "0x10000 \<le> c" by simp
    have e: "utf16EncodeCodePoint c =
        [of_nat (0xD800 + (c - 0x10000) div 0x400), of_nat (0xDC00 + (c - 0x10000) mod 0x400)]"
      using False by (simp add: utf16EncodeCodePoint_def)
    show ?thesis unfolding X e using surrogate_units [OF ge c] ih by simp
  qed
qed

section \<open>Lemmas on \<^verbatim>\<open>toUpperCase\<close>\<close>

lemma scalar_wellFormed: "list_all scalar cps \<Longrightarrow> wellFormed cps"
  by (induction cps rule: wellFormed.induct) (auto simp: scalar_def)

lemma wellFormed_append:
  "wellFormed xs \<Longrightarrow> wellFormed ys \<Longrightarrow>
   xs = [] \<or> ys = [] \<or>
     \<not> ((0xD800 \<le> last xs \<and> last xs \<le> 0xDBFF) \<and> (0xDC00 \<le> hd ys \<and> hd ys \<le> 0xDFFF)) \<Longrightarrow>
   wellFormed (xs @ ys)"
proof (induction xs rule: wellFormed.induct)
  case 1
  then show ?case by simp
next
  case (2 c)
  then show ?case by (cases ys) auto
next
  case (3 c d cps)
  then show ?case by auto
qed

lemma upper_head_scalar: "scalar d \<Longrightarrow> scalar (hd (toUppercaseCP d))"
  using toUppercaseCP_scalar [of d "hd (toUppercaseCP d)"] toUppercaseCP_nonempty [of d]
  by simp

lemma upper_last_scalar: "scalar c \<Longrightarrow> scalar (last (toUppercaseCP c))"
  using toUppercaseCP_scalar [of c "last (toUppercaseCP c)"] toUppercaseCP_nonempty [of c]
  by simp

lemma upper_wellFormed_single: "c < 0x110000 \<Longrightarrow> wellFormed (toUppercaseCP c)"
proof (cases "scalar c")
  case True
  then have "list_all scalar (toUppercaseCP c)"
    using toUppercaseCP_scalar [of c] by (simp add: list_all_iff)
  then show ?thesis by (rule scalar_wellFormed)
next
  case False
  assume "c < 0x110000"
  then show ?thesis using False by (simp add: toUppercaseCP_not_scalar)
qed

lemma wellFormed_upper:
  "wellFormed cps \<Longrightarrow> wellFormed (concat (map toUppercaseCP cps))"
proof (induction cps rule: wellFormed.induct)
  case 1
  then show ?case by simp
next
  case (2 c)
  then show ?case by (simp add: upper_wellFormed_single)
next
  case (3 c d cps)
  then have wf: "wellFormed (d # cps)" and c: "c < 0x110000"
    and nb: "\<not> ((0xD800 \<le> c \<and> c \<le> 0xDBFF) \<and> (0xDC00 \<le> d \<and> d \<le> 0xDFFF))"
    by simp_all
  have d: "d < 0x110000" using wf by (cases cps) simp_all
  let ?Y = "concat (map toUppercaseCP (d # cps))"
  have wY: "wellFormed ?Y" using "3.IH" wf by simp
  have hdY: "hd ?Y = hd (toUppercaseCP d)" by (simp add: toUppercaseCP_nonempty)
  have wc: "wellFormed (toUppercaseCP c)" using c by (rule upper_wellFormed_single)
  have "\<not> ((0xD800 \<le> last (toUppercaseCP c) \<and> last (toUppercaseCP c) \<le> 0xDBFF) \<and>
           (0xDC00 \<le> hd ?Y \<and> hd ?Y \<le> 0xDFFF))"
  proof (cases "scalar c")
    case True
    then have "scalar (last (toUppercaseCP c))" by (rule upper_last_scalar)
    then show ?thesis by (auto simp: scalar_def)
  next
    case False
    then have lc: "last (toUppercaseCP c) = c" by (simp add: toUppercaseCP_not_scalar)
    show ?thesis
    proof (cases "scalar d")
      case True
      then have "scalar (hd (toUppercaseCP d))" by (rule upper_head_scalar)
      then show ?thesis unfolding hdY by (auto simp: scalar_def)
    next
      case False
      then have "hd (toUppercaseCP d) = d" by (simp add: toUppercaseCP_not_scalar)
      then show ?thesis unfolding hdY lc using nb by simp
    qed
  qed
  then have "wellFormed (toUppercaseCP c @ ?Y)" using wc wY by (intro wellFormed_append) auto
  then show ?case by simp
qed

lemma concat_map_singletons: "(\<And>x. x \<in> set xs \<Longrightarrow> f x = [x]) \<Longrightarrow> concat (map f xs) = xs"
  by (induction xs) simp_all

lemma upper_upper: "concat (map toUppercaseCP (toUppercaseCP c)) = toUppercaseCP c"
  by (rule concat_map_singletons) (rule toUppercaseCP_fixed)

lemma upper_upper_list:
  "concat (map toUppercaseCP (concat (map toUppercaseCP cps))) = concat (map toUppercaseCP cps)"
  by (induction cps) (simp_all add: upper_upper)

lemma toUpperCase_idem: "toUpperCase (toUpperCase s) = toUpperCase s"
proof -
  let ?X = "concat (map toUppercaseCP (stringToCodePoints s))"
  have "wellFormed ?X" using wellFormed_decode by (rule wellFormed_upper)
  then have "stringToCodePoints (codePointsToString ?X) = ?X" by (rule decode_encode)
  then show ?thesis by (simp add: toUpperCase_def upper_upper_list)
qed

section \<open>Lemmas on \<^verbatim>\<open>trim\<close>\<close>

lemma dropWhile_all: "list_all P ws \<Longrightarrow> dropWhile P (ws @ s) = dropWhile P s"
  by (induction ws) auto

lemma dropWhile_unchanged: "xs = [] \<or> \<not> P (hd xs) \<Longrightarrow> dropWhile P xs = xs"
  by (cases xs) auto

lemma trim_surrounded:
  assumes "list_all isWhiteSpace w1" and "list_all isWhiteSpace w2"
  shows "trim (w1 @ s @ w2) = trim s"
proof -
  have w2': "list_all isWhiteSpace (rev w2)" using assms(2) by (simp add: list_all_iff)
  have a: "dropWhile isWhiteSpace (w1 @ s @ w2) = dropWhile isWhiteSpace (s @ w2)"
    using assms(1) by (rule dropWhile_all)
  show ?thesis
  proof (cases "list_all isWhiteSpace s")
    case True
    then have "list_all isWhiteSpace (s @ w2)" using assms(2) by simp
    then have b: "dropWhile isWhiteSpace (s @ w2) = []" by (simp add: list_all_iff)
    have c: "dropWhile isWhiteSpace s = []" using True by (simp add: list_all_iff)
    show ?thesis unfolding trim_def a b c by (rule refl)
  next
    case False
    then have "\<exists>x\<in>set s. \<not> isWhiteSpace x" by (simp add: list_all_iff)
    then have b: "dropWhile isWhiteSpace (s @ w2) = dropWhile isWhiteSpace s @ w2"
      by (auto simp: dropWhile_append1)
    have c: "dropWhile isWhiteSpace (rev w2 @ rev (dropWhile isWhiteSpace s))
               = dropWhile isWhiteSpace (rev (dropWhile isWhiteSpace s))"
      using w2' by (rule dropWhile_all)
    show ?thesis unfolding trim_def a b rev_append c by (rule refl)
  qed
qed

lemma trim_core:
  assumes "core = [] \<or> (\<not> isWhiteSpace (hd core) \<and> \<not> isWhiteSpace (last core))"
  shows "trim core = core"
proof (cases "core = []")
  case True
  then show ?thesis by (simp add: trim_def)
next
  case False
  then have h: "\<not> isWhiteSpace (hd core)" and l: "\<not> isWhiteSpace (last core)"
    using assms by simp_all
  have a: "dropWhile isWhiteSpace core = core" using h by (intro dropWhile_unchanged) simp
  have "hd (rev core) = last core" using False by (simp add: hd_rev)
  then have b: "dropWhile isWhiteSpace (rev core) = rev core"
    using l by (intro dropWhile_unchanged) simp
  show ?thesis unfolding trim_def a b by simp
qed

lemma trim_decompose:
  "\<exists>w1 w2. list_all isWhiteSpace w1 \<and> list_all isWhiteSpace w2 \<and> s = w1 @ trim s @ w2 \<and>
     (trim s = [] \<or> (\<not> isWhiteSpace (hd (trim s)) \<and> \<not> isWhiteSpace (last (trim s))))"
proof -
  let ?d = "dropWhile isWhiteSpace" and ?t = "takeWhile isWhiteSpace"
  let ?r = "?d s"
  let ?w1 = "?t s" and ?w2 = "rev (?t (rev ?r))"
  have t: "trim s = rev (?d (rev ?r))" by (simp add: trim_def)
  have "rev ?r = ?t (rev ?r) @ ?d (rev ?r)" by simp
  then have "rev (rev ?r) = rev (?t (rev ?r) @ ?d (rev ?r))" by (rule arg_cong)
  then have r: "?r = trim s @ ?w2" unfolding t by (simp only: rev_rev_ident rev_append)
  have s: "s = ?w1 @ trim s @ ?w2" using r by (metis takeWhile_dropWhile_id)
  have w1: "list_all isWhiteSpace ?w1" by (simp add: list_all_iff) (meson set_takeWhileD)
  have w2: "list_all isWhiteSpace ?w2" by (simp add: list_all_iff) (meson set_takeWhileD)
  have edge: "\<not> isWhiteSpace (hd (trim s)) \<and> \<not> isWhiteSpace (last (trim s))" if ne: "trim s \<noteq> []"
  proof -
    have "?d (rev ?r) \<noteq> []" using ne t by simp
    then have "\<not> isWhiteSpace (hd (?d (rev ?r)))" by (rule hd_dropWhile)
    moreover have "last (trim s) = hd (?d (rev ?r))" using ne t by (simp add: last_rev)
    ultimately have l: "\<not> isWhiteSpace (last (trim s))" by simp
    have rne: "?r \<noteq> []" using r ne by (metis append_is_Nil_conv)
    then have "\<not> isWhiteSpace (hd ?r)" by (rule hd_dropWhile)
    moreover have "hd ?r = hd (trim s)" using r ne by (metis hd_append2)
    ultimately show ?thesis using l by simp
  qed
  show ?thesis using s w1 w2 edge by blast
qed

section \<open>\<^verbatim>\<open>trim\<close> and \<^verbatim>\<open>toUpperCase\<close> commute\<close>

lemma whiteSpace_of_nat: "n < 0x10000 \<Longrightarrow> isWhiteSpace (of_nat n) = isWhiteSpaceCP n"
  by (simp add: isWhiteSpace_def unat_of_nat_codeUnit)

lemma decode_whiteSpace: "list_all isWhiteSpace w \<Longrightarrow> stringToCodePoints w = map unat w"
  by (induction w) (simp_all add: decode_not_leading whiteSpace_not_surrogate)

lemma toUpperCase_append:
  "t = [] \<or> \<not> isTrailingSurrogate (hd t) \<Longrightarrow>
   toUpperCase (s @ t) = toUpperCase s @ toUpperCase t"
  by (simp add: toUpperCase_def codePointsToString_def decode_append)

lemma toUpperCase_whiteSpace: "list_all isWhiteSpace w \<Longrightarrow> toUpperCase w = w"
proof (induction w)
  case Nil
  then show ?case by (simp add: toUpperCase_def codePointsToString_def)
next
  case (Cons u w)
  then have u: "isWhiteSpace u" and w: "list_all isWhiteSpace w" by simp_all
  have "w = [] \<or> \<not> isTrailingSurrogate (hd w)"
    using w by (cases w) (simp_all add: whiteSpace_not_surrogate)
  then have "toUpperCase ([u] @ w) = toUpperCase [u] @ toUpperCase w"
    by (rule toUpperCase_append)
  moreover have "toUpperCase [u] = [u]"
    using u unat_codeUnit [of u]
    by (simp add: toUpperCase_def codePointsToString_def isWhiteSpace_def
          toUppercaseCP_whiteSpace utf16EncodeCodePoint_def)
  ultimately show ?case using Cons.IH w by simp
qed

lemma toUpperCase_surrounded:
  assumes "list_all isWhiteSpace w1" and "list_all isWhiteSpace w2"
  shows "toUpperCase (w1 @ core @ w2) = w1 @ toUpperCase core @ w2"
proof -
  have t2: "w2 = [] \<or> \<not> isTrailingSurrogate (hd w2)"
    using assms(2) by (cases w2) (simp_all add: whiteSpace_not_surrogate)
  have a: "toUpperCase (core @ w2) = toUpperCase core @ w2"
    using toUpperCase_append [OF t2] assms(2) by (simp add: toUpperCase_whiteSpace)
  have "toUpperCase (w @ r) = w @ toUpperCase r" if "list_all isWhiteSpace w" for w r
    using that
  proof (induction w)
    case Nil
    then show ?case by simp
  next
    case (Cons u w)
    then have u: "isWhiteSpace u" and w: "list_all isWhiteSpace w" by simp_all
    have "w @ r = [] \<or> \<not> isTrailingSurrogate (hd (w @ r)) \<or> True" by simp
    have d: "stringToCodePoints (u # (w @ r)) = unat u # stringToCodePoints (w @ r)"
      using u by (simp add: decode_not_leading whiteSpace_not_surrogate)
    have "toUpperCase (u # (w @ r)) = u # toUpperCase (w @ r)"
      using u unat_codeUnit [of u]
      by (simp add: toUpperCase_def codePointsToString_def d isWhiteSpace_def
            toUppercaseCP_whiteSpace utf16EncodeCodePoint_def)
    then show ?case using Cons.IH w by simp
  qed
  then show ?thesis using assms(1) a by simp
qed

lemma encode_not_whiteSpace:
  assumes "\<not> isWhiteSpaceCP d" and "d < 0x110000"
  shows "\<not> isWhiteSpace (hd (utf16EncodeCodePoint d)) \<and> \<not> isWhiteSpace (last (utf16EncodeCodePoint d))"
proof (cases "d < 0x10000")
  case True
  then show ?thesis using assms(1) by (simp add: utf16EncodeCodePoint_def whiteSpace_of_nat)
next
  case False
  then have ge: "0x10000 \<le> d" by simp
  show ?thesis
    using False surrogate_units(1,2) [OF ge assms(2)] whiteSpace_not_surrogate
    by (auto simp: utf16EncodeCodePoint_def)
qed

lemma hd_concat_map:
  "xs \<noteq> [] \<Longrightarrow> f (hd xs) \<noteq> [] \<Longrightarrow> hd (concat (map f xs)) = hd (f (hd xs))"
  by (cases xs) simp_all

lemma last_concat_map:
  "xs \<noteq> [] \<Longrightarrow> f (last xs) \<noteq> [] \<Longrightarrow> last (concat (map f xs)) = last (f (last xs))"
  by (induction xs) (auto simp: last_append)

lemma concat_map_nonempty: "xs \<noteq> [] \<Longrightarrow> (\<And>x. f x \<noteq> []) \<Longrightarrow> concat (map f xs) \<noteq> []"
  by (cases xs) simp_all

lemma wellFormed_bound: "wellFormed cps \<Longrightarrow> c \<in> set cps \<Longrightarrow> c < 0x110000"
  by (induction cps rule: wellFormed.induct) auto

lemma upper_bound: "c < 0x110000 \<Longrightarrow> d \<in> set (toUppercaseCP c) \<Longrightarrow> d < 0x110000"
proof (cases "scalar c")
  case True
  assume "d \<in> set (toUppercaseCP c)"
  then have "scalar d" using True by (rule toUppercaseCP_scalar [rotated])
  then show ?thesis by (simp add: scalar_def)
next
  case False
  assume "c < 0x110000" and "d \<in> set (toUppercaseCP c)"
  then show ?thesis using False by (simp add: toUppercaseCP_not_scalar)
qed

lemma supplementary_not_whiteSpace: "0x10000 \<le> c \<Longrightarrow> \<not> isWhiteSpaceCP c"
  by (simp add: isWhiteSpaceCP_def)

lemma toUpperCase_edges:
  assumes "core \<noteq> []" and "\<not> isWhiteSpace (hd core)" and "\<not> isWhiteSpace (last core)"
  shows "toUpperCase core \<noteq> [] \<and> \<not> isWhiteSpace (hd (toUpperCase core)) \<and>
         \<not> isWhiteSpace (last (toUpperCase core))"
proof -
  let ?cps = "stringToCodePoints core"
  let ?ups = "concat (map toUppercaseCP ?cps)"
  have cne: "?cps \<noteq> []" using assms(1) by (rule decode_nonempty)
  have wf: "wellFormed ?cps" by (rule wellFormed_decode)
  have une: "?ups \<noteq> []" using cne toUppercaseCP_nonempty by (rule concat_map_nonempty)
  have ne: "toUpperCase core \<noteq> []"
    unfolding toUpperCase_def codePointsToString_def
    using une encode_nonempty by (rule concat_map_nonempty)
  obtain u rest where core: "core = u # rest" using assms(1) by (cases core) auto
  obtain c cs where cps: "?cps = c # cs" using cne by (cases ?cps) auto
  have "c = unat u \<or> 0x10000 \<le> c" using cps unfolding core by (rule decode_head)
  then have c: "\<not> isWhiteSpaceCP c"
  proof
    assume "c = unat u"
    then show ?thesis using assms(2) core by (simp add: isWhiteSpace_def)
  next
    assume "0x10000 \<le> c"
    then show ?thesis by (rule supplementary_not_whiteSpace)
  qed
  have cb: "c < 0x110000" using wf cps by (intro wellFormed_bound [of ?cps]) simp_all
  have hu: "hd ?ups = hd (toUppercaseCP c)"
    using hd_concat_map [of ?cps toUppercaseCP] cne cps toUppercaseCP_nonempty by simp
  have "hd (toUppercaseCP c) \<in> set (toUppercaseCP c)" using toUppercaseCP_nonempty by simp
  then have h1: "\<not> isWhiteSpaceCP (hd ?ups)" and h2: "hd ?ups < 0x110000"
    unfolding hu using c cb toUppercaseCP_not_whiteSpace upper_bound by blast+
  have "hd (toUpperCase core) = hd (utf16EncodeCodePoint (hd ?ups))"
    unfolding toUpperCase_def codePointsToString_def
    using une encode_nonempty by (rule hd_concat_map)
  then have first: "\<not> isWhiteSpace (hd (toUpperCase core))"
    using encode_not_whiteSpace [OF h1 h2] by simp
  let ?c' = "last ?cps"
  have "?c' = unat (last core) \<or> 0x10000 \<le> ?c'" using assms(1) by (rule decode_last)
  then have c': "\<not> isWhiteSpaceCP ?c'"
  proof
    assume "?c' = unat (last core)"
    then show ?thesis using assms(3) by (simp add: isWhiteSpace_def)
  next
    assume "0x10000 \<le> ?c'"
    then show ?thesis by (rule supplementary_not_whiteSpace)
  qed
  have cb': "?c' < 0x110000" using wf cne by (intro wellFormed_bound [of ?cps]) simp_all
  have lu: "last ?ups = last (toUppercaseCP ?c')"
    using cne toUppercaseCP_nonempty by (rule last_concat_map)
  have "last (toUppercaseCP ?c') \<in> set (toUppercaseCP ?c')" using toUppercaseCP_nonempty by simp
  then have l1: "\<not> isWhiteSpaceCP (last ?ups)" and l2: "last ?ups < 0x110000"
    unfolding lu using c' cb' toUppercaseCP_not_whiteSpace upper_bound by blast+
  have "last (toUpperCase core) = last (utf16EncodeCodePoint (last ?ups))"
    unfolding toUpperCase_def codePointsToString_def
    using une encode_nonempty by (rule last_concat_map)
  then have final: "\<not> isWhiteSpace (last (toUpperCase core))"
    using encode_not_whiteSpace [OF l1 l2] by simp
  show ?thesis using ne first final by simp
qed

lemma trim_toUpperCase: "trim (toUpperCase s) = toUpperCase (trim s)"
proof -
  obtain w1 w2 where w1: "list_all isWhiteSpace w1" and w2: "list_all isWhiteSpace w2"
    and s: "s = w1 @ trim s @ w2"
    and edge: "trim s = [] \<or> (\<not> isWhiteSpace (hd (trim s)) \<and> \<not> isWhiteSpace (last (trim s)))"
    using trim_decompose [of s] by blast
  have "toUpperCase s = toUpperCase (w1 @ trim s @ w2)" using s by simp
  then have "toUpperCase s = w1 @ toUpperCase (trim s) @ w2"
    using w1 w2 by (simp only: toUpperCase_surrounded)
  then have "trim (toUpperCase s) = trim (toUpperCase (trim s))"
    using w1 w2 by (simp only: trim_surrounded)
  moreover have "trim (toUpperCase (trim s)) = toUpperCase (trim s)"
  proof (rule trim_core)
    show "toUpperCase (trim s) = [] \<or>
          (\<not> isWhiteSpace (hd (toUpperCase (trim s))) \<and> \<not> isWhiteSpace (last (toUpperCase (trim s))))"
    proof (cases "trim s = []")
      case True
      then show ?thesis by (simp add: toUpperCase_def codePointsToString_def)
    next
      case False
      then show ?thesis using edge toUpperCase_edges [of "trim s"] by simp
    qed
  qed
  ultimately show ?thesis by simp
qed

lemma normalized_fixed: "toUpperCase (trim (toUpperCase (trim x))) = toUpperCase (trim x)"
proof -
  have "trim (toUpperCase (trim x)) = toUpperCase (trim (trim x))" by (rule trim_toUpperCase)
  moreover have "trim (trim x) = trim x"
    using trim_decompose [of x] by (intro trim_core) blast
  ultimately show ?thesis by (simp add: toUpperCase_idem)
qed

section \<open>Lemmas on the accession pattern and the coercers\<close>

lemma parsePattern_literal:
  "regexLiteral prefix \<Longrightarrow> parsePattern prefix = Some (map PatternCharacter prefix)"
proof (induction prefix)
  case Nil
  then show ?case by simp
next
  case (Cons u us)
  then have u: "\<not> isSyntaxCharacter u" and us: "regexLiteral us" by (simp_all add: regexLiteral_def)
  have "u \<noteq> 0x2E" using u by (auto simp: isSyntaxCharacter_def)
  then show ?case using u us Cons.IH by simp
qed

lemma matchAtoms_literal:
  "matchAtoms (map PatternCharacter p) s = Some rest \<longleftrightarrow> s = p @ rest"
proof (induction p arbitrary: s)
  case Nil
  then show ?case by auto
next
  case (Cons c p)
  then show ?case by (cases s) auto
qed

lemma test_literal:
  "test (map PatternCharacter p) s \<longleftrightarrow>
     (\<exists>digits. s = p @ digits \<and> length digits = 5 \<and> list_all isDigit digits)"
proof
  assume "test (map PatternCharacter p) s"
  then obtain digits where "matchAtoms (map PatternCharacter p) s = Some digits"
    and "length digits = 5" and "list_all isDigit digits"
    by (auto simp: test_def split: option.splits)
  then show "\<exists>digits. s = p @ digits \<and> length digits = 5 \<and> list_all isDigit digits"
    by (auto simp: matchAtoms_literal)
next
  assume "\<exists>digits. s = p @ digits \<and> length digits = 5 \<and> list_all isDigit digits"
  then obtain digits where s: "s = p @ digits" and d: "length digits = 5" "list_all isDigit digits"
    by blast
  from s have "matchAtoms (map PatternCharacter p) s = Some digits"
    by (simp only: matchAtoms_literal)
  then show "test (map PatternCharacter p) s" using d by (simp add: test_def)
qed

lemma matchAtoms_length:
  "matchAtoms atoms s = Some rest \<Longrightarrow> length s = length atoms + length rest"
proof (induction atoms s rule: matchAtoms.induct)
  case (1 s)
  then show ?case by simp
next
  case (2 a atoms)
  then show ?case by simp
next
  case (3 a atoms u us)
  then show ?case by (simp split: if_splits)
qed

lemma test_nonempty: "test atoms s \<Longrightarrow> s \<noteq> []"
proof -
  assume "test atoms s"
  then obtain digits where m: "matchAtoms atoms s = Some digits" and "length digits = 5"
    by (auto simp: test_def split: option.splits)
  then have "length s = length atoms + 5" using matchAtoms_length [OF m] by simp
  then show ?thesis by auto
qed

lemma accessionFormat_nonempty: "accessionFormat prefix = Some format \<Longrightarrow> format s \<Longrightarrow> s \<noteq> []"
  using test_nonempty by (auto simp: accessionFormat_def)

lemma accessionCoerce_Inr:
  "accessionCoerce format x = Inr a \<longleftrightarrow>
     (a = toUpperCase (trim x) \<and> format (toUpperCase (trim x)))"
  by (auto simp: accessionCoerce_def Let_def)

lemma same_letters_toUpperCase:
  "list_all2 (\<lambda>c d. toUppercaseCP c = toUppercaseCP d) cs ds \<Longrightarrow>
   concat (map toUppercaseCP cs) = concat (map toUppercaseCP ds)"
  by (induction rule: list_all2_induct) auto

lemma idOrAccessionCoerce_cases:
  assumes "s \<noteq> []"
  shows "idOrAccessionCoerce ObjectId format (Some s) =
           (case ObjectId (Some s) of
              Inr oid \<Rightarrow> Inr (Some (RawId oid))
            | Inl _ \<Rightarrow>
                (case accessionCoerce format s of
                   Inr a \<Rightarrow>
                     if a = [] then Inl (Error ''Invalid ID or accession'')
                     else Inr (Some (Accession a))
                 | Inl _ \<Rightarrow> Inl (Error ''Invalid ID or accession'')))"
proof -
  from assms obtain c cs where s: "s = c # cs" by (cases s) auto
  show ?thesis
    by (cases "ObjectId (Some s)"; cases "accessionCoerce format s")
       (simp_all add: s idCoerce_def)
qed

section \<open>Evaluation of the coercers at concrete strings\<close>

lemmas evaluate_first =
  trim_def isWhiteSpace_def isWhiteSpaceCP_def js_def toUpperCase_def isLeadingSurrogate_def
  isTrailingSurrogate_def toUppercaseCP_def caseBlocks_def

lemmas evaluate_then = caseRules_defs codePointsToString_def utf16EncodeCodePoint_def

lemmas evaluate_format =
  mcnsFormat_def mDotNsFormat_def test_def js_def isDigit_def isLineTerminator_def

lemma accessionFormat_MCNS: "accessionFormat (js ''MCNS'') = Some mcnsFormat"
  by (simp add: accessionFormat_def mcnsFormat_def js_def isSyntaxCharacter_def)

lemma accessionFormat_MDotNS: "accessionFormat (js ''M.NS'') = Some mDotNsFormat"
  by (simp add: accessionFormat_def mDotNsFormat_def js_def isSyntaxCharacter_def)

lemma upper_mcns00042: "toUpperCase (trim (js ''mcns00042'')) = js ''MCNS00042''"
  by (simp add: evaluate_first) (simp add: evaluate_then)

lemma upper_MCNS00042: "toUpperCase (trim (js ''MCNS00042'')) = js ''MCNS00042''"
  by (simp add: evaluate_first) (simp add: evaluate_then)

lemma upper_padded: "toUpperCase (trim (0xA0 # js ''mcns00042'' @ [0x0A])) = js ''MCNS00042''"
  by (simp add: evaluate_first) (simp add: evaluate_then)

lemma upper_MCNS00001: "toUpperCase (trim (js ''MCNS00001'')) = js ''MCNS00001''"
  by (simp add: evaluate_first) (simp add: evaluate_then)

lemma upper_MXNS00001: "toUpperCase (trim (js ''MXNS00001'')) = js ''MXNS00001''"
  by (simp add: evaluate_first) (simp add: evaluate_then)

lemma upper_mcns00007: "toUpperCase (trim (js ''mcns00007'')) = js ''MCNS00007''"
  by (simp add: evaluate_first) (simp add: evaluate_then)

lemma upper_project7: "toUpperCase (trim (js ''project-7'')) = js ''PROJECT-7''"
  by (simp add: evaluate_first) (simp add: evaluate_then)

lemma toUpperCase_e_acute: "toUpperCase [0xE9] = [0xC9]"
  by (simp add: evaluate_first) (simp add: evaluate_then)

lemma toUpperCase_sharp_s: "toUpperCase [0xDF] = [0x53, 0x53]"
  by (simp add: evaluate_first) (simp add: evaluate_then)

lemma toUpperCase_deseret: "toUpperCase [0xD801, 0xDC28] = [0xD801, 0xDC00]"
  by (simp add: evaluate_first) (simp add: evaluate_then)

lemma trim_no_break_space: "trim (0xA0 # js ''MCNS00042'' @ [0xFEFF, 0x2028]) = js ''MCNS00042''"
  by (simp add: evaluate_first)

lemma format_MCNS00042: "mcnsFormat (js ''MCNS00042'')"
  by (simp add: evaluate_format)

lemma coerce_padded:
  "accessionCoerce mcnsFormat ([0xA0] @ js ''mcns00042'' @ [0x0A]) = Inr (js ''MCNS00042'')"
  using upper_padded format_MCNS00042 by (simp add: accessionCoerce_def)

section \<open>Lemmas on runs of the delete command\<close>

lemma andThen_compute_Inr: "andThen (compute (Inr v)) k = k v"
  by (simp add: andThen_def compute_def split: prod.splits)

lemma andThen_compute_Inl: "andThen (compute (Inl e)) k = ([], Inl e)"
  by (simp add: andThen_def compute_def)

lemma andThen_call_Inr: "andThen (call ev (Inr v)) k = (ev # fst (k v), snd (k v))"
  by (simp add: andThen_def call_def split: prod.splits)

lemma andThen_call_Inl: "andThen (call ev (Inl e)) k = ([ev], Inl e)"
  by (simp add: andThen_def call_def)

lemma fst_call: "fst (call ev r) = [ev]"
  by (simp add: call_def)

lemma snd_call: "snd (call ev r) = r"
  by (simp add: call_def)

lemmas run_simps = andThen_compute_Inr andThen_compute_Inl andThen_call_Inr andThen_call_Inl
  fst_call snd_call

lemma analysis_protocol:
  assumes "collection target = analyses database" and "document target = Obj props"
  shows "deletionProtocol database target documentName =
     (case syncProject database (ownProp props ''project'') of
        Inl e \<Rightarrow> ([SyncProject (ownProp props ''project'')], Inl e)
      | Inr _ \<Rightarrow>
          ([SyncProject (ownProp props ''project''),
            DeleteAnalysis (ownProp props ''name'') (ownProp props ''md'')],
           deleteAnalysis database (ownProp props ''name'') (ownProp props ''md'')))"
  using assms
  by (cases "syncProject database (ownProp props ''project'')")
     (simp_all add: deletionProtocol_def run_simps)

lemma file_protocol:
  assumes "collection target = files database" and "analyses database \<noteq> files database"
    and "document target = Obj props" and "ownProp props ''metadata'' = Obj meta"
  shows "deletionProtocol database target documentName =
     (case syncProject database (ownProp meta ''project'') of
        Inl e \<Rightarrow> ([SyncProject (ownProp meta ''project'')], Inl e)
      | Inr _ \<Rightarrow>
          ([SyncProject (ownProp meta ''project''),
            DeleteFile (ownProp props ''filename'') (ownProp meta ''md'')],
           deleteFile database (ownProp props ''filename'') (ownProp meta ''md'')))"
  using assms
  by (cases "syncProject database (ownProp meta ''project'')")
     (simp_all add: deletionProtocol_def run_simps)

lemma unsupported_protocol:
  assumes "collection target \<noteq> analyses database" and "collection target \<noteq> files database"
  shows "deletionProtocol database target documentName =
     ([], Inl (Error (''Deletion of '' @ documentName @ '' is not yet supported'')))"
  using assms by (simp add: deletionProtocol_def throw_def)

lemma andThen_events:
  assumes "list_all P (fst m)" and "\<And>v. list_all P (fst (k v))"
  shows "list_all P (fst (andThen m k))"
proof (cases m)
  case (Pair es r)
  show ?thesis
  proof (cases r)
    case (Inl e)
    then show ?thesis using assms(1) Pair by (simp add: andThen_def)
  next
    case (Inr v)
    obtain es' r' where kv: "k v = (es', r')" by (cases "k v")
    have "list_all P es'" using assms(2) [of v] kv by simp
    then show ?thesis using assms(1) Pair Inr kv by (simp add: andThen_def)
  qed
qed

lemma compute_events: "list_all P (fst (compute r))"
  by (simp add: compute_def)

lemma call_events: "P ev \<Longrightarrow> list_all P (fst (call ev r))"
  by (simp add: call_def)

lemma if_events:
  "list_all P (fst a) \<Longrightarrow> list_all P (fst b) \<Longrightarrow> list_all P (fst (if c then a else b))"
  by simp

lemma deletionProtocol_events:
  "list_all isHandlerWrite (fst (deletionProtocol database target documentName))"
  unfolding deletionProtocol_def
  by (intro if_events andThen_events compute_events call_events) (simp_all add: throw_def)

lemma handlerWrite_no_prompt: "list_all isHandlerWrite es \<Longrightarrow> \<not> list_ex isUserConfirm es"
proof (induction es)
  case Nil
  then show ?case by simp
next
  case (Cons e es)
  then show ?case by (cases e) simp_all
qed

lemma deleteFunctionIn_confirmed:
  assumes "confirm args" and "findId database (idArg args) = Inr (Some target)"
  shows "deleteFunctionIn userConfirm idText args database =
     ([ConsoleLog (''== Deletion of '' @ quoted (idText (idArg args))),
       FindId (idArg args),
       NameCollectionDocument (collection target)]
        @ fst (deletionProtocol database target
                 (nameCollectionDocument database (collection target))),
      snd (deletionProtocol database target
             (nameCollectionDocument database (collection target))))"
  using assms by (simp add: deleteFunctionIn_def run_simps)

lemma deleteFunctionIn_unbound:
  assumes "\<not> confirm args" and "findId database (idArg args) = Inr (Some target)"
  shows "deleteFunctionIn None idText args database =
     ([ConsoleLog (''== Deletion of '' @ quoted (idText (idArg args))),
       FindId (idArg args),
       NameCollectionDocument (collection target)],
      Inl (ReferenceError ''userConfirm is not defined''))"
  using assms by (simp add: deleteFunctionIn_def run_simps throw_def)

lemma deleteFunctionIn_declined:
  assumes "\<not> confirm args" and "findId database (idArg args) = Inr (Some target)"
    and "ask (''Confirm deletion of of '' @ nameCollectionDocument database (collection target)
               @ '' with id '' @ idText (idArg args) @ '' [y/*]'') = Inr answer"
    and "answer \<noteq> Str ''y''" and "answer \<noteq> Str ''Y''"
  shows "deleteFunctionIn (Some ask) idText args database =
     ([ConsoleLog (''== Deletion of '' @ quoted (idText (idArg args))),
       FindId (idArg args),
       NameCollectionDocument (collection target),
       UserConfirm (''Confirm deletion of of '' @ nameCollectionDocument database (collection target)
               @ '' with id '' @ idText (idArg args) @ '' [y/*]''),
       ConsoleLog ''Data deletion has been aborted''],
      Inr Undefined)"
  using assms by (simp add: deleteFunctionIn_def run_simps Let_def)

lemma startsWith_append: "startsWith (l @ b) l"
  by (induction l) auto

lemma mentions_startsWith: "startsWith s l \<Longrightarrow> mentions s l"
  by (cases s) (auto elim: startsWith.elims)

lemma mentions_infix: "mentions (a @ l @ b) l"
  by (induction a) (auto simp: mentions_startsWith startsWith_append)

section \<open>Properties of the coercers\<close>

text \<open>
  Claim C9.  Two accession inputs that differ only in letter case or in leading and
  trailing white space are coerced alike, whatever pattern the accession format was built
  from: with white space \<open>w1\<close>, \<open>w2\<close>, \<open>w3\<close>, \<open>w4\<close> (any of the code units
  \<^verbatim>\<open>trim\<close> removes) around two strings \<open>s\<close> and \<open>t\<close> whose code points agree one by one
  up to case, that is, have the same upper-case mapping, \<open>accessionCoerce\<close> gives the same
  result on both inputs; an accepted accession is the trimmed, upper-cased form, and
  coercing it again returns it unchanged.
\<close>

theorem accessionCoerce_case_and_space_insensitive:
  assumes "list_all isWhiteSpace w1" and "list_all isWhiteSpace w2"
    and "list_all isWhiteSpace w3" and "list_all isWhiteSpace w4"
    and "list_all2 (\<lambda>c d. toUppercaseCP c = toUppercaseCP d)
           (stringToCodePoints s) (stringToCodePoints t)"
  shows "accessionCoerce format (w1 @ s @ w2) = accessionCoerce format (w3 @ t @ w4) \<and>
         (\<forall>a. accessionCoerce format (w1 @ s @ w2) = Inr a \<longrightarrow>
              a = toUpperCase (trim s) \<and> accessionCoerce format a = Inr a)"
proof -
  have l: "trim (w1 @ s @ w2) = trim s" using assms(1,2) by (rule trim_surrounded)
  have r: "trim (w3 @ t @ w4) = trim t" using assms(3,4) by (rule trim_surrounded)
  have "concat (map toUppercaseCP (stringToCodePoints s)) =
        concat (map toUppercaseCP (stringToCodePoints t))"
    using assms(5) by (rule same_letters_toUpperCase)
  then have "toUpperCase s = toUpperCase t" by (simp add: toUpperCase_def)
  then have "trim (toUpperCase s) = trim (toUpperCase t)" by simp
  then have u: "toUpperCase (trim s) = toUpperCase (trim t)" by (simp only: trim_toUpperCase)
  have same: "accessionCoerce format (w1 @ s @ w2) = accessionCoerce format (w3 @ t @ w4)"
    unfolding accessionCoerce_def l r u by (rule refl)
  have idem: "a = toUpperCase (trim s) \<and> accessionCoerce format a = Inr a"
    if h: "accessionCoerce format (w1 @ s @ w2) = Inr a" for a
  proof -
    from h have a: "a = toUpperCase (trim s)" and f: "format (toUpperCase (trim s))"
      by (simp_all add: accessionCoerce_Inr l)
    have "accessionCoerce format (toUpperCase (trim s)) = Inr (toUpperCase (trim s))"
      using f by (simp add: accessionCoerce_Inr normalized_fixed)
    then show ?thesis using a by simp
  qed
  show ?thesis using same idem by blast
qed

theorem accessionCoerce_case_and_space_insensitive_witness:
  "list_all isWhiteSpace [0xA0] \<and> list_all isWhiteSpace [0x0A] \<and>
   list_all isWhiteSpace [] \<and> list_all isWhiteSpace [0x3000, 0x20] \<and>
   list_all2 (\<lambda>c d. toUppercaseCP c = toUppercaseCP d)
     (stringToCodePoints (js ''mcns00042'')) (stringToCodePoints (js ''McNs00042'')) \<and>
   accessionCoerce mcnsFormat ([0xA0] @ js ''mcns00042'' @ [0x0A]) = Inr (js ''MCNS00042'') \<and>
   accessionCoerce mcnsFormat ([] @ js ''McNs00042'' @ [0x3000, 0x20]) = Inr (js ''MCNS00042'') \<and>
   accessionCoerce mcnsFormat (js ''MCNS00042'') = Inr (js ''MCNS00042'')"
proof -
  have h1: "list_all isWhiteSpace [0xA0]" by (simp add: isWhiteSpace_def isWhiteSpaceCP_def)
  have h2: "list_all isWhiteSpace [0x0A]" by (simp add: isWhiteSpace_def isWhiteSpaceCP_def)
  have h3: "list_all isWhiteSpace []" by simp
  have h4: "list_all isWhiteSpace [0x3000, 0x20]"
    by (simp add: isWhiteSpace_def isWhiteSpaceCP_def)
  have h5: "list_all2 (\<lambda>c d. toUppercaseCP c = toUppercaseCP d)
     (stringToCodePoints (js ''mcns00042'')) (stringToCodePoints (js ''McNs00042''))"
    by (simp add: evaluate_first) (simp add: evaluate_then)
  have v: "accessionCoerce mcnsFormat ([0xA0] @ js ''mcns00042'' @ [0x0A]) = Inr (js ''MCNS00042'')"
    by (rule coerce_padded)
  from accessionCoerce_case_and_space_insensitive [OF h1 h2 h3 h4 h5, of mcnsFormat] v
  have "accessionCoerce mcnsFormat ([] @ js ''McNs00042'' @ [0x3000, 0x20]) = Inr (js ''MCNS00042'') \<and>
        accessionCoerce mcnsFormat (js ''MCNS00042'') = Inr (js ''MCNS00042'')"
    by simp
  then show ?thesis using h1 h2 h3 h4 h5 v by blast
qed

text \<open>
  Claim C6, as amended.  For every non-empty input string, \<open>idOrAccessionCoerce\<close> first
  attempts the raw-id coercion and returns its object when it succeeds; only when it
  throws does it attempt the accession coercion, and when both fail it throws an error
  with the fixed message \<^verbatim>\<open>Invalid ID or accession\<close>.  (The same error is thrown when
  the accession coercion yields the empty string, which fails the test
  \<^verbatim>\<open>if (output)\<close>; no pattern of the form \<^verbatim>\<open>^MCNS\d{5}$\<close> accepts the empty string.)
\<close>

theorem idOrAccessionCoerce_tries_id_then_accession:
  assumes "s \<noteq> []"
  shows "idOrAccessionCoerce ObjectId format (Some s) =
           (case ObjectId (Some s) of
              Inr oid \<Rightarrow> Inr (Some (RawId oid))
            | Inl _ \<Rightarrow>
                (case accessionCoerce format s of
                   Inr a \<Rightarrow>
                     if a = [] then Inl (Error ''Invalid ID or accession'')
                     else Inr (Some (Accession a))
                 | Inl _ \<Rightarrow> Inl (Error ''Invalid ID or accession'')))"
  using assms by (rule idOrAccessionCoerce_cases)

theorem idOrAccessionCoerce_tries_id_then_accession_witness:
  "js ''mcns00007'' \<noteq> [] \<and>
   idOrAccessionCoerce driverObjectId mcnsFormat (Some (js ''mcns00007'')) =
     Inr (Some (Accession (js ''MCNS00007'')))"
proof -
  have h: "js ''mcns00007'' \<noteq> []" by (simp add: js_def)
  have o: "driverObjectId (Some (js ''mcns00007'')) =
    Inl (Error ''Argument passed in must be a single String of 12 bytes or a string of 24 hex characters'')"
    by (simp add: driverObjectId_def js_def)
  have "mcnsFormat (js ''MCNS00007'')" by (simp add: evaluate_format)
  then have a: "accessionCoerce mcnsFormat (js ''mcns00007'') = Inr (js ''MCNS00007'')"
    using upper_mcns00007 by (simp add: accessionCoerce_def)
  have n: "js ''MCNS00007'' \<noteq> []" by (simp add: js_def)
  have "idOrAccessionCoerce driverObjectId mcnsFormat (Some (js ''mcns00007'')) =
           (case driverObjectId (Some (js ''mcns00007'')) of
              Inr oid \<Rightarrow> Inr (Some (RawId oid))
            | Inl _ \<Rightarrow>
                (case accessionCoerce mcnsFormat (js ''mcns00007'') of
                   Inr a \<Rightarrow>
                     if a = [] then Inl (Error ''Invalid ID or accession'')
                     else Inr (Some (Accession a))
                 | Inl _ \<Rightarrow> Inl (Error ''Invalid ID or accession'')))"
    using h by (rule idOrAccessionCoerce_tries_id_then_accession)
  then show ?thesis using h n by (simp add: o a)
qed

text \<open>
  The claim as the specification words it asks the error to name the original input.
  On the input \<^verbatim>\<open>project-7\<close>, which is neither a raw id nor an accession, the message
  is the fixed text and the input does not occur in it.
\<close>

theorem invalid_identifier_message_counterexample:
  "idOrAccessionCoerce driverObjectId mcnsFormat (Some (js ''project-7'')) =
     Inl (Error ''Invalid ID or accession'') \<and>
   \<not> mentions ''Invalid ID or accession'' ''project-7''"
proof -
  have o: "driverObjectId (Some (js ''project-7'')) =
    Inl (Error ''Argument passed in must be a single String of 12 bytes or a string of 24 hex characters'')"
    by (simp add: driverObjectId_def js_def)
  have "\<not> mcnsFormat (js ''PROJECT-7'')" by (simp add: evaluate_format)
  then have a: "accessionCoerce mcnsFormat (js ''project-7'') = Inl (Error ''Not a valid accession'')"
    using upper_project7 by (simp add: accessionCoerce_def)
  have j: "js ''project-7'' = 0x70 # js ''roject-7''" by (simp add: js_def)
  have "idOrAccessionCoerce driverObjectId mcnsFormat (Some (js ''project-7'')) =
          Inl (Error ''Invalid ID or accession'')"
    unfolding j by (simp add: idCoerce_def o [unfolded j] a [unfolded j])
  moreover have "\<not> mentions ''Invalid ID or accession'' ''project-7''" by simp
  ultimately show ?thesis by simp
qed

text \<open>
  Claim C10, as amended.  The coercer returns \<^verbatim>\<open>null\<close> without error on \<^verbatim>\<open>null\<close>
  and on the empty string, and every other value it returns has exactly one of two
  shapes: the object the driver's constructor built from the (non-empty) input, or, when
  the constructor threw, a non-empty string that is the trimmed, upper-cased input, is
  its own upper-case form and is accepted by the accession pattern.  When the pattern was
  built from a prefix without syntax characters, that string is the prefix followed by
  exactly five digits.
\<close>

theorem idOrAccessionCoerce_result_shapes:
  "idOrAccessionCoerce ObjectId format None = Inr None \<and>
   idOrAccessionCoerce ObjectId format (Some []) = Inr None \<and>
   (\<forall>v. idOrAccessionCoerce ObjectId format input = Inr (Some v) \<longrightarrow>
      (case v of
         RawId oid \<Rightarrow> (\<exists>s. input = Some s \<and> s \<noteq> [] \<and> ObjectId (Some s) = Inr oid)
       | Accession a \<Rightarrow>
           (\<exists>s. input = Some s \<and> s \<noteq> [] \<and> isl (ObjectId (Some s)) \<and> a = toUpperCase (trim s)) \<and>
           a \<noteq> [] \<and> toUpperCase a = a \<and> format a \<and>
           (\<forall>prefix. regexLiteral prefix \<and> accessionFormat prefix = Some format \<longrightarrow>
              (\<exists>digits. a = prefix @ digits \<and> length digits = 5 \<and> list_all isDigit digits))))"
proof -
  have shape: "case v of
         RawId oid \<Rightarrow> (\<exists>s. input = Some s \<and> s \<noteq> [] \<and> ObjectId (Some s) = Inr oid)
       | Accession a \<Rightarrow>
           (\<exists>s. input = Some s \<and> s \<noteq> [] \<and> isl (ObjectId (Some s)) \<and> a = toUpperCase (trim s)) \<and>
           a \<noteq> [] \<and> toUpperCase a = a \<and> format a \<and>
           (\<forall>prefix. regexLiteral prefix \<and> accessionFormat prefix = Some format \<longrightarrow>
              (\<exists>digits. a = prefix @ digits \<and> length digits = 5 \<and> list_all isDigit digits))"
    if r: "idOrAccessionCoerce ObjectId format input = Inr (Some v)" for v
  proof -
    from r obtain s where i: "input = Some s" and ne: "s \<noteq> []"
      by (cases input; cases "the input") auto
    from r have e: "(case ObjectId (Some s) of
              Inr oid \<Rightarrow> Inr (Some (RawId oid))
            | Inl _ \<Rightarrow>
                (case accessionCoerce format s of
                   Inr a \<Rightarrow>
                     if a = [] then Inl (Error ''Invalid ID or accession'')
                     else Inr (Some (Accession a))
                 | Inl _ \<Rightarrow> Inl (Error ''Invalid ID or accession''))) = Inr (Some v)"
      unfolding i idOrAccessionCoerce_cases [OF ne] .
    show ?thesis
    proof (cases "ObjectId (Some s)")
      case (Inr oid)
      then have "v = RawId oid" using e by simp
      then show ?thesis using i ne Inr by simp
    next
      case (Inl err)
      then obtain a where a: "accessionCoerce format s = Inr a" and v: "v = Accession a"
        and an: "a \<noteq> []"
        using e by (cases "accessionCoerce format s") (auto split: if_splits)
      from a have n: "a = toUpperCase (trim s)" and f: "format a"
        by (simp_all add: accessionCoerce_Inr)
      have up: "toUpperCase a = a" unfolding n by (rule toUpperCase_idem)
      have lit: "\<exists>digits. a = prefix @ digits \<and> length digits = 5 \<and> list_all isDigit digits"
        if "regexLiteral prefix \<and> accessionFormat prefix = Some format" for prefix
      proof -
        from that have "format = test (map PatternCharacter prefix)"
          by (auto simp: accessionFormat_def parsePattern_literal)
        then show ?thesis using f by (simp add: test_literal)
      qed
      show ?thesis using v i ne Inl n an up f lit by simp
    qed
  qed
  show ?thesis using shape by simp
qed

theorem idOrAccessionCoerce_result_shapes_witness:
  "idOrAccessionCoerce driverObjectId mcnsFormat (Some (0xA0 # js ''mcns00042'' @ [0x0A])) =
     Inr (Some (Accession (js ''MCNS00042''))) \<and>
   regexLiteral (js ''MCNS'') \<and> accessionFormat (js ''MCNS'') = Some mcnsFormat \<and>
   toUpperCase (js ''MCNS00042'') = js ''MCNS00042'' \<and>
   (\<exists>digits. js ''MCNS00042'' = js ''MCNS'' @ digits \<and> length digits = 5 \<and>
      list_all isDigit digits)"
proof -
  let ?input = "0xA0 # js ''mcns00042'' @ [0x0A]"
  have h: "regexLiteral (js ''MCNS'') \<and> accessionFormat (js ''MCNS'') = Some mcnsFormat"
    using accessionFormat_MCNS by (simp add: regexLiteral_def js_def isSyntaxCharacter_def)
  have o: "driverObjectId (Some ?input) =
    Inl (Error ''Argument passed in must be a single String of 12 bytes or a string of 24 hex characters'')"
    by (simp add: driverObjectId_def js_def)
  have a: "accessionCoerce mcnsFormat ?input = Inr (js ''MCNS00042'')"
    using coerce_padded by simp
  have n: "js ''MCNS00042'' \<noteq> []" by (simp add: js_def)
  have r: "idOrAccessionCoerce driverObjectId mcnsFormat (Some ?input) =
     Inr (Some (Accession (js ''MCNS00042'')))"
    using n by (simp add: idCoerce_def o a)
  from idOrAccessionCoerce_result_shapes [of driverObjectId mcnsFormat "Some ?input"]
  have "\<forall>v. idOrAccessionCoerce driverObjectId mcnsFormat (Some ?input) = Inr (Some v) \<longrightarrow>
      (case v of
         RawId oid \<Rightarrow> (\<exists>s. Some ?input = Some s \<and> s \<noteq> [] \<and> driverObjectId (Some s) = Inr oid)
       | Accession a \<Rightarrow>
           (\<exists>s. Some ?input = Some s \<and> s \<noteq> [] \<and> isl (driverObjectId (Some s)) \<and>
                a = toUpperCase (trim s)) \<and>
           a \<noteq> [] \<and> toUpperCase a = a \<and> mcnsFormat a \<and>
           (\<forall>prefix. regexLiteral prefix \<and> accessionFormat prefix = Some mcnsFormat \<longrightarrow>
              (\<exists>digits. a = prefix @ digits \<and> length digits = 5 \<and> list_all isDigit digits)))"
    by (elim conjE)
  from this [rule_format, OF r]
  have "toUpperCase (js ''MCNS00042'') = js ''MCNS00042'' \<and>
     (\<forall>prefix. regexLiteral prefix \<and> accessionFormat prefix = Some mcnsFormat \<longrightarrow>
        (\<exists>digits. js ''MCNS00042'' = prefix @ digits \<and> length digits = 5 \<and>
           list_all isDigit digits))"
    by (simp only: idOrAccession.case) blast
  then show ?thesis using h r by blast
qed

text \<open>
  The claim as the specification words it has every returned accession consist of the
  configured prefix followed by five digits.  The prefix \<^verbatim>\<open>M.NS\<close> is read as a
  pattern whose dot matches any character: on the input \<^verbatim>\<open>MXNS00001\<close> the coercer
  returns \<^verbatim>\<open>MXNS00001\<close>, which does not start with the prefix.
\<close>

theorem accession_prefix_pattern_counterexample:
  "accessionFormat (js ''M.NS'') = Some mDotNsFormat \<and>
   idOrAccessionCoerce driverObjectId mDotNsFormat (Some (js ''MXNS00001'')) =
     Inr (Some (Accession (js ''MXNS00001''))) \<and>
   \<not> startsWith (js ''MXNS00001'') (js ''M.NS'')"
proof -
  have o: "driverObjectId (Some (js ''MXNS00001'')) =
    Inl (Error ''Argument passed in must be a single String of 12 bytes or a string of 24 hex characters'')"
    by (simp add: driverObjectId_def js_def)
  have "mDotNsFormat (js ''MXNS00001'')" by (simp add: evaluate_format)
  then have a: "accessionCoerce mDotNsFormat (js ''MXNS00001'') = Inr (js ''MXNS00001'')"
    using upper_MXNS00001 by (simp add: accessionCoerce_def)
  have j: "js ''MXNS00001'' = 0x4D # js ''XNS00001''" by (simp add: js_def)
  have "idOrAccessionCoerce driverObjectId mDotNsFormat (Some (js ''MXNS00001'')) =
     Inr (Some (Accession (js ''MXNS00001'')))"
    unfolding j by (simp add: idCoerce_def o [unfolded j] a [unfolded j])
  moreover have "\<not> startsWith (js ''MXNS00001'') (js ''M.NS'')" by (simp add: js_def)
  ultimately show ?thesis using accessionFormat_MDotNS by simp
qed

text \<open>
  Claim C2, as amended.  The cleanup command coerces its identifier with the raw-id
  coercion alone.  For an input that the accession coercion accepts as a (non-empty)
  accession: when the driver's constructor accepts it too, cleanup resolves it to that
  object, as unpublish does; when the constructor throws, cleanup fails with the
  constructor's error, whereas the coercer of unpublish resolves the input to the
  normalized accession.
\<close>

theorem cleanup_coerces_raw_ids_only:
  assumes "accessionCoerce format s = Inr a" and "a \<noteq> []"
  shows "(\<forall>oid. ObjectId (Some s) = Inr oid \<longrightarrow>
            cleanupCoerce ObjectId (Some s) = Inr oid \<and>
            unpublishCoerce ObjectId format (Some s) = Inr (Some (RawId oid))) \<and>
         (\<forall>e. ObjectId (Some s) = Inl e \<longrightarrow>
            cleanupCoerce ObjectId (Some s) = Inl e \<and>
            unpublishCoerce ObjectId format (Some s) = Inr (Some (Accession a)))"
proof -
  have "s = [] \<Longrightarrow> a = []"
    using assms(1) by (simp add: accessionCoerce_Inr trim_def toUpperCase_def codePointsToString_def)
  then have ne: "s \<noteq> []" using assms(2) by blast
  show ?thesis
    unfolding cleanupCoerce_def unpublishCoerce_def idCoerce_def
      idOrAccessionCoerce_cases [OF ne]
    using assms by simp
qed

theorem cleanup_coerces_raw_ids_only_witness:
  "accessionCoerce mcnsFormat (js ''mcns00042'') = Inr (js ''MCNS00042'') \<and>
   js ''MCNS00042'' \<noteq> [] \<and>
   isl (cleanupCoerce driverObjectId (Some (js ''mcns00042''))) \<and>
   unpublishCoerce driverObjectId mcnsFormat (Some (js ''mcns00042'')) =
     Inr (Some (Accession (js ''MCNS00042'')))"
proof -
  have h: "accessionCoerce mcnsFormat (js ''mcns00042'') = Inr (js ''MCNS00042'')"
    using upper_mcns00042 format_MCNS00042 by (simp add: accessionCoerce_def)
  have n: "js ''MCNS00042'' \<noteq> []" by (simp add: js_def)
  have o: "driverObjectId (Some (js ''mcns00042'')) =
    Inl (Error ''Argument passed in must be a single String of 12 bytes or a string of 24 hex characters'')"
    by (simp add: driverObjectId_def js_def)
  from cleanup_coerces_raw_ids_only [OF h n, of driverObjectId] o
  have "cleanupCoerce driverObjectId (Some (js ''mcns00042'')) =
          Inl (Error ''Argument passed in must be a single String of 12 bytes or a string of 24 hex characters'') \<and>
        unpublishCoerce driverObjectId mcnsFormat (Some (js ''mcns00042'')) =
          Inr (Some (Accession (js ''MCNS00042'')))"
    by blast
  then show ?thesis using h n by simp
qed

text \<open>
  The claim as the specification words it has the cleanup command resolve every
  accession-shaped input.  The accession \<^verbatim>\<open>MCNS00001\<close> is of the accession format for
  the prefix \<^verbatim>\<open>MCNS\<close>, the coercer of unpublish resolves it, and the coercer of cleanup
  throws on it.
\<close>

theorem cleanup_accession_input_counterexample:
  "accessionCoerce mcnsFormat (js ''MCNS00001'') = Inr (js ''MCNS00001'') \<and>
   isl (cleanupCoerce driverObjectId (Some (js ''MCNS00001''))) \<and>
   \<not> isl (unpublishCoerce driverObjectId mcnsFormat (Some (js ''MCNS00001'')))"
proof -
  have "mcnsFormat (js ''MCNS00001'')" by (simp add: evaluate_format)
  then have a: "accessionCoerce mcnsFormat (js ''MCNS00001'') = Inr (js ''MCNS00001'')"
    using upper_MCNS00001 by (simp add: accessionCoerce_def)
  have o: "driverObjectId (Some (js ''MCNS00001'')) =
    Inl (Error ''Argument passed in must be a single String of 12 bytes or a string of 24 hex characters'')"
    by (simp add: driverObjectId_def js_def)
  have j: "js ''MCNS00001'' = 0x4D # js ''CNS00001''" by (simp add: js_def)
  have "unpublishCoerce driverObjectId mcnsFormat (Some (js ''MCNS00001'')) =
     Inr (Some (Accession (js ''MCNS00001'')))"
    unfolding unpublishCoerce_def j by (simp add: idCoerce_def o [unfolded j] a [unfolded j])
  then show ?thesis using a o by (simp add: cleanupCoerce_def idCoerce_def)
qed

section \<open>Properties of the delete command\<close>

text \<open>
  Claim C5.  For a target in the Analyses collection whose document is an object, the
  deletion protocol first calls \<^verbatim>\<open>syncProject\<close> with \<^verbatim>\<open>document.project\<close> and, once
  that call has resolved, calls \<^verbatim>\<open>deleteAnalysis\<close> with \<^verbatim>\<open>document.name\<close> and
  \<^verbatim>\<open>document.md\<close>, and makes no other call; when \<^verbatim>\<open>syncProject\<close> rejects, its error
  is the outcome and nothing is deleted.
\<close>

theorem analysis_protocol_sync_then_delete:
  assumes "collection target = analyses database" and "document target = Obj props"
  shows "deletionProtocol database target documentName =
     (case syncProject database (ownProp props ''project'') of
        Inl e \<Rightarrow> ([SyncProject (ownProp props ''project'')], Inl e)
      | Inr _ \<Rightarrow>
          ([SyncProject (ownProp props ''project''),
            DeleteAnalysis (ownProp props ''name'') (ownProp props ''md'')],
           deleteAnalysis database (ownProp props ''name'') (ownProp props ''md'')))"
  using assms by (rule analysis_protocol)

theorem analysis_protocol_sync_then_delete_witness:
  "collection \<lparr> collection = ''analyses'', document = rmsdAnalysis \<rparr> =
     analyses (sampleDatabase ''analyses'' rmsdAnalysis) \<and>
   document \<lparr> collection = ''analyses'', document = rmsdAnalysis \<rparr> =
     Obj [(''name'', Str ''md.rmsd''), (''md'', Num 1), (''project'', Str ''P1'')] \<and>
   fst (deletionProtocol (sampleDatabase ''analyses'' rmsdAnalysis)
          \<lparr> collection = ''analyses'', document = rmsdAnalysis \<rparr> ''analysis'') =
     [SyncProject (Str ''P1''), DeleteAnalysis (Str ''md.rmsd'') (Num 1)]"
proof -
  let ?db = "sampleDatabase ''analyses'' rmsdAnalysis"
  let ?t = "\<lparr> collection = ''analyses'', document = rmsdAnalysis \<rparr>"
  let ?props = "[(''name'', Str ''md.rmsd''), (''md'', Num 1), (''project'', Str ''P1'')]"
  have h1: "collection ?t = analyses ?db" by (simp add: sampleDatabase_def)
  have h2: "document ?t = Obj ?props" by (simp add: rmsdAnalysis_def)
  have "deletionProtocol ?db ?t ''analysis'' =
     (case syncProject ?db (ownProp ?props ''project'') of
        Inl e \<Rightarrow> ([SyncProject (ownProp ?props ''project'')], Inl e)
      | Inr _ \<Rightarrow>
          ([SyncProject (ownProp ?props ''project''),
            DeleteAnalysis (ownProp ?props ''name'') (ownProp ?props ''md'')],
           deleteAnalysis ?db (ownProp ?props ''name'') (ownProp ?props ''md'')))"
    using h1 h2 by (rule analysis_protocol_sync_then_delete)
  then have "fst (deletionProtocol ?db ?t ''analysis'') =
     [SyncProject (Str ''P1''), DeleteAnalysis (Str ''md.rmsd'') (Num 1)]"
    by (simp add: sampleDatabase_def ownProp_def)
  then show ?thesis using h1 h2 by blast
qed

text \<open>
  Claim C1, as amended.  For a target in the Files collection (a collection other than the
  Analyses collection) whose document and \<^verbatim>\<open>document.metadata\<close> are objects, the
  deletion protocol first calls \<^verbatim>\<open>syncProject\<close> with \<^verbatim>\<open>document.metadata.project\<close>
  and, once that call has resolved, calls \<^verbatim>\<open>deleteFile\<close> with the file name read
  from the top level of the document, \<^verbatim>\<open>document.filename\<close>, and the MD index read from
  \<^verbatim>\<open>document.metadata.md\<close>.
\<close>

theorem file_protocol_sync_then_delete:
  assumes "collection target = files database" and "analyses database \<noteq> files database"
    and "document target = Obj props" and "ownProp props ''metadata'' = Obj meta"
  shows "deletionProtocol database target documentName =
     (case syncProject database (ownProp meta ''project'') of
        Inl e \<Rightarrow> ([SyncProject (ownProp meta ''project'')], Inl e)
      | Inr _ \<Rightarrow>
          ([SyncProject (ownProp meta ''project''),
            DeleteFile (ownProp props ''filename'') (ownProp meta ''md'')],
           deleteFile database (ownProp props ''filename'') (ownProp meta ''md'')))"
  using assms by (rule file_protocol)

theorem file_protocol_sync_then_delete_witness:
  "collection \<lparr> collection = ''fs.files'', document = gridFile \<rparr> =
     files (sampleDatabase ''fs.files'' gridFile) \<and>
   analyses (sampleDatabase ''fs.files'' gridFile) \<noteq> files (sampleDatabase ''fs.files'' gridFile) \<and>
   document \<lparr> collection = ''fs.files'', document = gridFile \<rparr> =
     Obj [(''filename'', Str ''traj.xtc''),
          (''metadata'', Obj [(''md'', Num 2), (''project'', Str ''P2'')])] \<and>
   ownProp [(''filename'', Str ''traj.xtc''),
            (''metadata'', Obj [(''md'', Num 2), (''project'', Str ''P2'')])] ''metadata'' =
     Obj [(''md'', Num 2), (''project'', Str ''P2'')] \<and>
   fst (deletionProtocol (sampleDatabase ''fs.files'' gridFile)
          \<lparr> collection = ''fs.files'', document = gridFile \<rparr> ''file'') =
     [SyncProject (Str ''P2''), DeleteFile (Str ''traj.xtc'') (Num 2)]"
proof -
  let ?db = "sampleDatabase ''fs.files'' gridFile"
  let ?t = "\<lparr> collection = ''fs.files'', document = gridFile \<rparr>"
  let ?meta = "[(''md'', Num 2), (''project'', Str ''P2'')]"
  let ?props = "[(''filename'', Str ''traj.xtc''), (''metadata'', Obj ?meta)]"
  have h1: "collection ?t = files ?db" by (simp add: sampleDatabase_def)
  have h2: "analyses ?db \<noteq> files ?db" by (simp add: sampleDatabase_def)
  have h3: "document ?t = Obj ?props" by (simp add: gridFile_def)
  have h4: "ownProp ?props ''metadata'' = Obj ?meta" by (simp add: ownProp_def)
  have "deletionProtocol ?db ?t ''file'' =
     (case syncProject ?db (ownProp ?meta ''project'') of
        Inl e \<Rightarrow> ([SyncProject (ownProp ?meta ''project'')], Inl e)
      | Inr _ \<Rightarrow>
          ([SyncProject (ownProp ?meta ''project''),
            DeleteFile (ownProp ?props ''filename'') (ownProp ?meta ''md'')],
           deleteFile ?db (ownProp ?props ''filename'') (ownProp ?meta ''md'')))"
    using h1 h2 h3 h4 by (rule file_protocol_sync_then_delete)
  then have "fst (deletionProtocol ?db ?t ''file'') =
     [SyncProject (Str ''P2''), DeleteFile (Str ''traj.xtc'') (Num 2)]"
    by (simp add: sampleDatabase_def ownProp_def)
  then show ?thesis using h1 h2 h3 h4 by blast
qed

text \<open>
  The claim as the specification words it takes the file name from
  \<^verbatim>\<open>document.metadata\<close>.  On the document whose \<^verbatim>\<open>metadata\<close> is
  \<^verbatim>\<open>{filename: "traj.xtc", md: 2, project: "P2"}\<close> and which has no file name at its top
  level, the calls are \<^verbatim>\<open>syncProject("P2")\<close> and \<^verbatim>\<open>deleteFile(undefined, 2)\<close>, not
  \<^verbatim>\<open>deleteFile("traj.xtc", 2)\<close>.
\<close>

theorem file_name_from_metadata_counterexample:
  "fst (deletionProtocol (sampleDatabase ''fs.files'' metadataOnlyFile)
          \<lparr> collection = ''fs.files'', document = metadataOnlyFile \<rparr> ''file'') =
     [SyncProject (Str ''P2''), DeleteFile Undefined (Num 2)] \<and>
   fst (deletionProtocol (sampleDatabase ''fs.files'' metadataOnlyFile)
          \<lparr> collection = ''fs.files'', document = metadataOnlyFile \<rparr> ''file'') \<noteq>
     [SyncProject (Str ''P2''), DeleteFile (Str ''traj.xtc'') (Num 2)]"
  by (simp add: deletionProtocol_def sampleDatabase_def metadataOnlyFile_def ownProp_def
        run_simps)

text \<open>
  Claim C4.  For a target whose collection is neither the Analyses nor the Files
  collection, the deletion protocol makes no call and throws an error whose message,
  \<^verbatim>\<open>Deletion of <label> is not yet supported\<close>, names the document label it was given.
  Whatever the confirmation flag and the answer, the function then makes no
  \<^verbatim>\<open>syncProject\<close>, \<^verbatim>\<open>deleteAnalysis\<close> or \<^verbatim>\<open>deleteFile\<close> call for such a located
  target, and with the flag set its outcome is that error, with the label
  \<^verbatim>\<open>nameCollectionDocument\<close> gives for the collection.
\<close>

theorem unsupported_collection_fails_closed:
  assumes "collection target \<noteq> analyses database" and "collection target \<noteq> files database"
  shows "deletionProtocol database target documentName =
           ([], Inl (Error (''Deletion of '' @ documentName @ '' is not yet supported''))) \<and>
         mentions (''Deletion of '' @ documentName @ '' is not yet supported'') documentName \<and>
         (findId database (idArg args) = Inr (Some target) \<longrightarrow>
            \<not> list_ex isHandlerWrite (fst (deleteFunctionIn userConfirm idText args database)) \<and>
            (confirm args \<longrightarrow>
               snd (deleteFunctionIn userConfirm idText args database) =
                 Inl (Error (''Deletion of '' @ nameCollectionDocument database (collection target)
                             @ '' is not yet supported''))))"
proof -
  have p: "deletionProtocol database target documentName =
           ([], Inl (Error (''Deletion of '' @ documentName @ '' is not yet supported'')))"
    for documentName
    using assms by (rule unsupported_protocol)
  have m: "mentions (''Deletion of '' @ documentName @ '' is not yet supported'') documentName"
    by (rule mentions_infix)
  have w: "\<not> list_ex isHandlerWrite (fst (deleteFunctionIn userConfirm idText args database))"
    if "findId database (idArg args) = Inr (Some target)"
    using that
    by (cases userConfirm)
       (auto simp: deleteFunctionIn_def run_simps p throw_def andThen_def call_def Let_def
             split: sum.splits)
  have c: "snd (deleteFunctionIn userConfirm idText args database) =
             Inl (Error (''Deletion of '' @ nameCollectionDocument database (collection target)
                         @ '' is not yet supported''))"
    if "findId database (idArg args) = Inr (Some target)" and "confirm args"
    using that by (simp add: deleteFunctionIn_confirmed p)
  show ?thesis using p m w c by blast
qed

theorem unsupported_collection_fails_closed_witness:
  "collection \<lparr> collection = ''projects'', document = Obj [] \<rparr> \<noteq>
     analyses (sampleDatabase ''projects'' (Obj [])) \<and>
   collection \<lparr> collection = ''projects'', document = Obj [] \<rparr> \<noteq>
     files (sampleDatabase ''projects'' (Obj [])) \<and>
   findId (sampleDatabase ''projects'' (Obj [])) (idArg (sampleArgs True)) =
     Inr (Some \<lparr> collection = ''projects'', document = Obj [] \<rparr>) \<and>
   confirm (sampleArgs True) \<and>
   \<not> list_ex isHandlerWrite
       (fst (deleteFunctionIn None (\<lambda>i. i) (sampleArgs True) (sampleDatabase ''projects'' (Obj [])))) \<and>
   snd (deleteFunctionIn None (\<lambda>i. i) (sampleArgs True) (sampleDatabase ''projects'' (Obj []))) =
     Inl (Error ''Deletion of project is not yet supported'')"
proof -
  let ?db = "sampleDatabase ''projects'' (Obj [])"
  let ?t = "\<lparr> collection = ''projects'', document = Obj [] \<rparr>"
  have h1: "collection ?t \<noteq> analyses ?db" by (simp add: sampleDatabase_def)
  have h2: "collection ?t \<noteq> files ?db" by (simp add: sampleDatabase_def)
  have h3: "findId ?db (idArg (sampleArgs True)) = Inr (Some ?t)"
    by (simp add: sampleDatabase_def sampleArgs_def)
  have h4: "confirm (sampleArgs True)" by (simp add: sampleArgs_def)
  have n: "nameCollectionDocument ?db ''projects'' = ''project''"
    by (simp add: sampleDatabase_def)
  from unsupported_collection_fails_closed
         [OF h1 h2, of "''project''" "sampleArgs True" None "\<lambda>i. i"] h3 h4
  have "\<not> list_ex isHandlerWrite (fst (deleteFunctionIn None (\<lambda>i. i) (sampleArgs True) ?db)) \<and>
        snd (deleteFunctionIn None (\<lambda>i. i) (sampleArgs True) ?db) =
          Inl (Error (''Deletion of '' @ nameCollectionDocument ?db (collection ?t)
                      @ '' is not yet supported''))"
    by blast
  then show ?thesis using h1 h2 h3 h4 by (simp add: n)
qed

text \<open>
  Claim C8.  With the confirmation flag set and a located target, and whatever
  \<^verbatim>\<open>userConfirm\<close> is bound to and would answer, the function never calls
  \<^verbatim>\<open>userConfirm\<close>: after the initial log line, the lookup and the label lookup, it
  runs the deletion protocol of the target directly, and its outcome is the protocol's.
\<close>

theorem confirm_flag_bypasses_gate:
  assumes "confirm args" and "findId database (idArg args) = Inr (Some target)"
  shows "deleteFunctionIn userConfirm idText args database =
     ([ConsoleLog (''== Deletion of '' @ quoted (idText (idArg args))),
       FindId (idArg args),
       NameCollectionDocument (collection target)]
        @ fst (deletionProtocol database target
                 (nameCollectionDocument database (collection target))),
      snd (deletionProtocol database target
             (nameCollectionDocument database (collection target)))) \<and>
     \<not> list_ex isUserConfirm (fst (deleteFunctionIn userConfirm idText args database))"
proof -
  have e: "deleteFunctionIn userConfirm idText args database =
     ([ConsoleLog (''== Deletion of '' @ quoted (idText (idArg args))),
       FindId (idArg args),
       NameCollectionDocument (collection target)]
        @ fst (deletionProtocol database target
                 (nameCollectionDocument database (collection target))),
      snd (deletionProtocol database target
             (nameCollectionDocument database (collection target))))"
    using assms by (rule deleteFunctionIn_confirmed)
  have "\<not> list_ex isUserConfirm
          (fst (deletionProtocol database target
                  (nameCollectionDocument database (collection target))))"
    using deletionProtocol_events by (rule handlerWrite_no_prompt)
  then have "\<not> list_ex isUserConfirm (fst (deleteFunctionIn userConfirm idText args database))"
    unfolding e by simp
  then show ?thesis using e by blast
qed

theorem confirm_flag_bypasses_gate_witness:
  "confirm (sampleArgs True) \<and>
   findId (sampleDatabase ''analyses'' rmsdAnalysis) (idArg (sampleArgs True)) =
     Inr (Some \<lparr> collection = ''analyses'', document = rmsdAnalysis \<rparr>) \<and>
   deleteFunctionIn (Some (\<lambda>prompt. Inr (Str ''n''))) (\<lambda>i. i) (sampleArgs True)
       (sampleDatabase ''analyses'' rmsdAnalysis) =
     ([ConsoleLog (''== Deletion of '' @ quoted ''5d08c0d8174bf85a17e00861''),
       FindId ''5d08c0d8174bf85a17e00861'',
       NameCollectionDocument ''analyses'',
       SyncProject (Str ''P1''),
       DeleteAnalysis (Str ''md.rmsd'') (Num 1)],
      Inr Undefined)"
proof -
  let ?db = "sampleDatabase ''analyses'' rmsdAnalysis"
  let ?t = "\<lparr> collection = ''analyses'', document = rmsdAnalysis \<rparr>"
  have h1: "confirm (sampleArgs True)" by (simp add: sampleArgs_def)
  have h2: "findId ?db (idArg (sampleArgs True)) = Inr (Some ?t)"
    by (simp add: sampleDatabase_def sampleArgs_def)
  have p: "deletionProtocol ?db ?t ''analysis'' =
             ([SyncProject (Str ''P1''), DeleteAnalysis (Str ''md.rmsd'') (Num 1)], Inr Undefined)"
    by (simp add: deletionProtocol_def sampleDatabase_def rmsdAnalysis_def ownProp_def run_simps)
  have n: "nameCollectionDocument ?db (collection ?t) = ''analysis''"
    by (simp add: sampleDatabase_def)
  have i: "idArg (sampleArgs True) = ''5d08c0d8174bf85a17e00861''" by (simp add: sampleArgs_def)
  from confirm_flag_bypasses_gate
         [OF h1 h2, of "Some (\<lambda>prompt. Inr (Str ''n''))" "\<lambda>i. i"]
  have "deleteFunctionIn (Some (\<lambda>prompt. Inr (Str ''n''))) (\<lambda>i. i) (sampleArgs True) ?db =
     ([ConsoleLog (''== Deletion of '' @ quoted (idArg (sampleArgs True))),
       FindId (idArg (sampleArgs True)),
       NameCollectionDocument (collection ?t)]
        @ fst (deletionProtocol ?db ?t (nameCollectionDocument ?db (collection ?t))),
      snd (deletionProtocol ?db ?t (nameCollectionDocument ?db (collection ?t))))"
    by (rule conjunct1)
  then show ?thesis using h1 h2 unfolding n p i by simp
qed

text \<open>
  Claim C3.  The module binds no \<^verbatim>\<open>userConfirm\<close>.  For every located target, when the
  confirmation flag is not set, the function logs its first line, looks the target and
  its label up, and then fails with a \<^verbatim>\<open>ReferenceError\<close> on the identifier
  \<^verbatim>\<open>userConfirm\<close>: no prompt is shown and no \<^verbatim>\<open>syncProject\<close>,
  \<^verbatim>\<open>deleteAnalysis\<close> or \<^verbatim>\<open>deleteFile\<close> call is made.
\<close>

theorem unconfirmed_deletion_raises_reference_error:
  assumes "findId database (idArg args) = Inr (Some target)" and "\<not> confirm args"
  shows "deleteFunction idText args database =
     ([ConsoleLog (''== Deletion of '' @ quoted (idText (idArg args))),
       FindId (idArg args),
       NameCollectionDocument (collection target)],
      Inl (ReferenceError ''userConfirm is not defined'')) \<and>
     \<not> list_ex isUserConfirm (fst (deleteFunction idText args database)) \<and>
     \<not> list_ex isHandlerWrite (fst (deleteFunction idText args database))"
proof -
  have e: "deleteFunction idText args database =
     ([ConsoleLog (''== Deletion of '' @ quoted (idText (idArg args))),
       FindId (idArg args),
       NameCollectionDocument (collection target)],
      Inl (ReferenceError ''userConfirm is not defined''))"
    unfolding deleteFunction_def using assms(2) assms(1) by (rule deleteFunctionIn_unbound)
  show ?thesis unfolding e by simp
qed

theorem unconfirmed_deletion_raises_reference_error_witness:
  "findId (sampleDatabase ''fs.files'' gridFile) (idArg (sampleArgs False)) =
     Inr (Some \<lparr> collection = ''fs.files'', document = gridFile \<rparr>) \<and>
   \<not> confirm (sampleArgs False) \<and>
   deleteFunction (\<lambda>i. i) (sampleArgs False) (sampleDatabase ''fs.files'' gridFile) =
     ([ConsoleLog (''== Deletion of '' @ quoted ''5d08c0d8174bf85a17e00861''),
       FindId ''5d08c0d8174bf85a17e00861'',
       NameCollectionDocument ''fs.files''],
      Inl (ReferenceError ''userConfirm is not defined''))"
proof -
  let ?db = "sampleDatabase ''fs.files'' gridFile"
  let ?t = "\<lparr> collection = ''fs.files'', document = gridFile \<rparr>"
  have h1: "findId ?db (idArg (sampleArgs False)) = Inr (Some ?t)"
    by (simp add: sampleDatabase_def sampleArgs_def)
  have h2: "\<not> confirm (sampleArgs False)" by (simp add: sampleArgs_def)
  have i: "idArg (sampleArgs False) = ''5d08c0d8174bf85a17e00861''" by (simp add: sampleArgs_def)
  from unconfirmed_deletion_raises_reference_error [OF h1 h2, of "\<lambda>i. i"]
  have "deleteFunction (\<lambda>i. i) (sampleArgs False) ?db =
     ([ConsoleLog (''== Deletion of '' @ quoted (idArg (sampleArgs False))),
       FindId (idArg (sampleArgs False)),
       NameCollectionDocument (collection ?t)],
      Inl (ReferenceError ''userConfirm is not defined''))"
    by (rule conjunct1)
  then show ?thesis using h1 h2 unfolding i by simp
qed

text \<open>
  Claim C7.  The specification has a declined confirmation end the command in the aborted
  outcome.  The function reaches its test of the answer only where \<^verbatim>\<open>userConfirm\<close>
  is bound; as the module stands, a run that asks for confirmation on the analysis
  \<^verbatim>\<open>md.rmsd\<close> ends with the \<^verbatim>\<open>ReferenceError\<close>, whatever the operator would have
  answered, and the abort message is never logged.
\<close>

theorem declined_confirmation_raises_reference_error:
  "deleteFunction (\<lambda>i. i) (sampleArgs False) (sampleDatabase ''analyses'' rmsdAnalysis) =
     ([ConsoleLog (''== Deletion of '' @ quoted ''5d08c0d8174bf85a17e00861''),
       FindId ''5d08c0d8174bf85a17e00861'',
       NameCollectionDocument ''analyses''],
      Inl (ReferenceError ''userConfirm is not defined'')) \<and>
   snd (deleteFunction (\<lambda>i. i) (sampleArgs False) (sampleDatabase ''analyses'' rmsdAnalysis)) \<noteq>
     Inr Undefined \<and>
   \<not> List.member
       (fst (deleteFunction (\<lambda>i. i) (sampleArgs False) (sampleDatabase ''analyses'' rmsdAnalysis)))
       (ConsoleLog ''Data deletion has been aborted'')"
  by (simp add: deleteFunction_def deleteFunctionIn_def sampleArgs_def sampleDatabase_def
        run_simps throw_def quoted_def)

end
